theory Spec2Isabelle
  imports Main
begin

section \<open>Common notions\<close>

text \<open>
  Objects of the library are identified by an object identity (\<open>obj\<close>); every persistent
  object also carries a uuid. Python exceptions are values of \<open>error\<close>. An operation
  returns \<open>Some (Inr s)\<close> with the new state, \<open>Some (Inl e)\<close> when the source raises
  \<open>e\<close>, and \<open>None\<close> when the fuel that bounds re-entrant event dispatch is used up.
\<close>

type_synonym obj = nat
type_synonym uuid = string

datatype error = AssertionError | AttributeError | TypeError | ValueError | KeyError

type_synonym 'a result = "(error + 'a) option"

definition and_then :: "'a result \<Rightarrow> ('a \<Rightarrow> 'b result) \<Rightarrow> 'b result" where
  "and_then m f = (case m of None \<Rightarrow> None | Some (Inl e) \<Rightarrow> Some (Inl e) | Some (Inr x) \<Rightarrow> f x)"

definition returns :: "'a \<Rightarrow> 'a result" where
  "returns x = Some (Inr x)"

definition raises :: "error \<Rightarrow> 'a result" where
  "raises e = Some (Inl e)"

section \<open>Connection.py: Connection and PropertyConnection\<close>

text \<open>
  \<open>connection\<close> holds what the base class \<open>Connection\<close> keeps: the uuid and the closed
  flag of the persistent object, the \<open>parent_specifier\<close> property and the item of the
  parent reference. The subclasses extend it. In a \<open>PropertyConnection\<close>,
  \<open>source_item\<close> and \<open>target_item\<close> are the \<open>item\<close> of the two item
  references; \<open>binding\<close> is \<open>__binding\<close>, a
  \<open>PropertyBinding\<close> given by the source object and the property name it was created
  with; \<open>target_property_changed_listener\<close> is the listener of the same name, given by
  the object it listens to.
\<close>

record connection =
  uuid :: uuid
  closed :: bool
  parent_specifier :: "uuid option"
  parent_item :: "obj option"

record property_connection = connection +
  source_specifier :: "uuid option"
  source_property :: "string option"
  target_specifier :: "uuid option"
  target_property :: "string option"
  source_item :: "obj option"
  target_item :: "obj option"
  binding :: "(obj \<times> string) option"
  target_property_changed_listener :: "obj option"
  suppress :: bool

text \<open>
  The connection lives among objects with attributes. \<open>attrs w ob name\<close> is
  \<open>getattr(ob, name)\<close> (\<open>None\<close> is Python's \<open>None\<close>), \<open>obj_uuid\<close> the uuid a
  specifier of the object writes, and \<open>setattr_log\<close> records every \<open>setattr\<close> in
  order, so that forwarded sets can be counted.
\<close>

record 'v world =
  attrs :: "obj \<Rightarrow> string \<Rightarrow> 'v option"
  obj_uuid :: "obj \<Rightarrow> uuid"
  setattr_log :: "(obj \<times> string \<times> 'v option) list"
  conn :: property_connection

definition with_suppress :: "bool \<Rightarrow> 'v world \<Rightarrow> 'v world" where
  "with_suppress b w = w\<lparr>conn := (conn w)\<lparr>suppress := b\<rparr>\<rparr>"

text \<open>
  Setting an attribute of a persistent object stores the value and fires the object's
  \<open>property_changed_event\<close>; the listeners of the connection on that object run
  synchronously: the target listener (\<open>property_changed\<close> of \<open>configure_target\<close>) and
  the listener of the \<open>PropertyBinding\<close>, which reads the source property and hands it
  to \<open>target_setter\<close>, that is \<open>__set_target_from_source\<close>. The binding's
  \<open>update_source\<close> is a \<open>setattr\<close> on the binding's source. Modelled from the spec:
  \<open>Persistence\<close> and \<open>Binding\<close> are not under src/; a set fires
  \<open>property_changed(name)\<close> unconditionally and delivery is synchronous and depth-first.

  The methods call \<open>setattr\<close> and \<open>setattr\<close> calls them back through the listeners.
  Each method is written over the \<open>setattr\<close> it calls (\<open>sa\<close>); \<open>setattr\<close> closes the
  knot with fuel that decreases at every nested \<open>setattr\<close>.
\<close>

type_synonym 'v setter = "obj \<Rightarrow> string \<Rightarrow> 'v option \<Rightarrow> 'v world \<Rightarrow> 'v world result"

definition set_target_from_source_on :: "'v setter \<Rightarrow> 'v option \<Rightarrow> 'v world \<Rightarrow> 'v world result" where
  "set_target_from_source_on sa v w =
     (if closed (conn w) then raises AssertionError
      else if \<not> suppress (conn w)
      then (case target_property (conn w) of
              None \<Rightarrow> raises TypeError
            | Some tp \<Rightarrow>
                (case target_item (conn w) of
                   None \<Rightarrow> raises AttributeError
                 | Some tgt \<Rightarrow>
                     and_then (sa tgt tp v (with_suppress True w))
                       (\<lambda>w'. returns (with_suppress False w'))))
      else returns w)"

definition set_source_from_target_on :: "'v setter \<Rightarrow> 'v option \<Rightarrow> 'v world \<Rightarrow> 'v world result" where
  "set_source_from_target_on sa v w =
     (if closed (conn w) then raises AssertionError
      else if \<not> suppress (conn w)
      then (case binding (conn w) of
              None \<Rightarrow> returns (with_suppress False (with_suppress True w))
            | Some (src, sp) \<Rightarrow>
                and_then (sa src sp v (with_suppress True w))
                  (\<lambda>w'. returns (with_suppress False w')))
      else returns w)"

definition target_listener_fire :: "'v setter \<Rightarrow> obj \<Rightarrow> string \<Rightarrow> 'v world \<Rightarrow> 'v world result" where
  "target_listener_fire sa ob name w =
     (if target_property_changed_listener (conn w) = Some ob
      then (if Some name = target_property (conn w)
            then set_source_from_target_on sa (attrs w ob name) w
            else returns w)
      else returns w)"

definition binding_listener_fire :: "'v setter \<Rightarrow> obj \<Rightarrow> string \<Rightarrow> 'v world \<Rightarrow> 'v world result" where
  "binding_listener_fire sa ob name w =
     (case binding (conn w) of
        None \<Rightarrow> returns w
      | Some (src, prop) \<Rightarrow>
          if src = ob \<and> prop = name
          then set_target_from_source_on sa (attrs w src name) w
          else returns w)"

definition store_attr :: "obj \<Rightarrow> string \<Rightarrow> 'v option \<Rightarrow> 'v world \<Rightarrow> 'v world" where
  "store_attr ob name v w =
     w\<lparr>attrs := (attrs w)(ob := (attrs w ob)(name := v)),
       setattr_log := setattr_log w @ [(ob, name, v)]\<rparr>"

primrec setattr :: "nat \<Rightarrow> 'v setter" where
  "setattr 0 = (\<lambda>ob name v w. None)"
| "setattr (Suc n) = (\<lambda>ob name v w.
     and_then (target_listener_fire (setattr n) ob name (store_attr ob name v w))
       (binding_listener_fire (setattr n) ob name))"

definition set_target_from_source :: "nat \<Rightarrow> 'v option \<Rightarrow> 'v world \<Rightarrow> 'v world result" where
  "set_target_from_source n = set_target_from_source_on (setattr n)"

definition set_source_from_target :: "nat \<Rightarrow> 'v option \<Rightarrow> 'v world \<Rightarrow> 'v world result" where
  "set_source_from_target n = set_source_from_target_on (setattr n)"


text \<open>
  \<open>configure_binding\<close>, \<open>release_binding\<close> and \<open>configure_target\<close> of
  \<open>PropertyConnection.__init__\<close>. Creating the binding pushes the source value to the
  target once (\<open>update_target_direct(get_target_value())\<close>); reading the source
  property under the name \<open>None\<close> raises \<open>TypeError\<close>.
\<close>

definition configure_binding :: "nat \<Rightarrow> 'v world \<Rightarrow> 'v world result" where
  "configure_binding n w =
     (case (source_item (conn w), target_item (conn w)) of
        (Some src, Some tgt) \<Rightarrow>
          if binding (conn w) \<noteq> None then raises AssertionError
          else (case source_property (conn w) of
                  None \<Rightarrow> raises TypeError
                | Some sp \<Rightarrow>
                    set_target_from_source n (attrs w src sp)
                      (w\<lparr>conn := (conn w)\<lparr>binding := Some (src, sp)\<rparr>\<rparr>))
      | _ \<Rightarrow> returns w)"

definition release_binding :: "'v world \<Rightarrow> 'v world" where
  "release_binding w =
     w\<lparr>conn := (conn w)\<lparr>binding := None, target_property_changed_listener := None\<rparr>\<rparr>"

definition configure_target :: "nat \<Rightarrow> 'v world \<Rightarrow> 'v world result" where
  "configure_target n w =
     (if target_property_changed_listener (conn w) \<noteq> None then raises AssertionError
      else configure_binding n
             (case target_item (conn w) of
                None \<Rightarrow> w
              | Some tgt \<Rightarrow> w\<lparr>conn := (conn w)\<lparr>target_property_changed_listener := Some tgt\<rparr>\<rparr>))"

text \<open>
  \<open>if source_property:\<close> and \<open>if target_property:\<close> skip \<open>None\<close> and the empty string.
\<close>

definition if_truthy :: "string option \<Rightarrow> string option" where
  "if_truthy p = (case p of None \<Rightarrow> None | Some s \<Rightarrow> if s = [] then None else Some s)"

text \<open>
  \<open>PropertyConnection.__init__\<close>. \<open>u\<close> is the uuid the persistent object receives at
  creation; the other arguments are those of the source, and \<open>w\<close> gives the objects
  the connection is created among.
\<close>

definition PropertyConnection_init ::
  "nat \<Rightarrow> uuid \<Rightarrow> obj option \<Rightarrow> string option \<Rightarrow> obj option \<Rightarrow> string option \<Rightarrow> obj option
     \<Rightarrow> 'v world \<Rightarrow> 'v world result" where
  "PropertyConnection_init n u source sp target tp parent w =
     (let c = \<lparr>uuid = u, closed = False,
               parent_specifier = map_option (obj_uuid w) parent,
               parent_item = parent,
               source_specifier = map_option (obj_uuid w) source,
               source_property = if_truthy sp,
               target_specifier = map_option (obj_uuid w) target,
               target_property = if_truthy tp,
               source_item = source, target_item = target,
               binding = None, target_property_changed_listener = None,
               suppress = False\<rparr>
      in if target \<noteq> None then configure_target n (w\<lparr>conn := c\<rparr>) else returns (w\<lparr>conn := c\<rparr>))"

text \<open>\<open>PropertyConnection.close\<close>; the inherited \<open>close\<close> marks the object closed.\<close>

definition PropertyConnection_close :: "'v world \<Rightarrow> 'v world" where
  "PropertyConnection_close w =
     (let w' = release_binding w in w'\<lparr>conn := (conn w')\<lparr>closed := True\<rparr>\<rparr>)"

text \<open>
  Modelled from the spec: the item reference (\<open>Persistence\<close> is not under src/). It
  exposes \<open>item\<close> and invokes \<open>on_item_registered\<close> or \<open>on_item_unregistered\<close> once
  per transition of its resolution, and not at all when the resolution does not change.
  The callbacks are those \<open>PropertyConnection.__init__\<close> installs.
\<close>

definition source_registered :: "nat \<Rightarrow> obj \<Rightarrow> 'v world \<Rightarrow> 'v world result" where
  "source_registered n x w =
     (if source_item (conn w) = None
      then configure_binding n (w\<lparr>conn := (conn w)\<lparr>source_item := Some x\<rparr>\<rparr>)
      else returns w)"

definition source_unregistered :: "'v world \<Rightarrow> 'v world" where
  "source_unregistered w =
     (if source_item (conn w) = None then w
      else (let w' = release_binding w in w'\<lparr>conn := (conn w')\<lparr>source_item := None\<rparr>\<rparr>))"

definition target_registered :: "nat \<Rightarrow> obj \<Rightarrow> 'v world \<Rightarrow> 'v world result" where
  "target_registered n x w =
     (if target_item (conn w) = None
      then configure_target n (w\<lparr>conn := (conn w)\<lparr>target_item := Some x\<rparr>\<rparr>)
      else returns w)"

definition target_unregistered :: "'v world \<Rightarrow> 'v world" where
  "target_unregistered w =
     (if target_item (conn w) = None then w
      else (let w' = release_binding w in w'\<lparr>conn := (conn w')\<lparr>target_item := None\<rparr>\<rparr>))"

text \<open>What can happen to a constructed connection, and a run of such events.\<close>

datatype 'v event =
    SourceRegistered obj
  | SourceUnregistered
  | TargetRegistered obj
  | TargetUnregistered
  | SetAttr obj string "'v option"
  | Close

fun step :: "nat \<Rightarrow> 'v event \<Rightarrow> 'v world \<Rightarrow> 'v world result" where
  "step n (SourceRegistered x) w = source_registered n x w"
| "step n SourceUnregistered w = returns (source_unregistered w)"
| "step n (TargetRegistered x) w = target_registered n x w"
| "step n TargetUnregistered w = returns (target_unregistered w)"
| "step n (SetAttr ob name v) w = setattr n ob name v w"
| "step n Close w = returns (PropertyConnection_close w)"

fun run :: "nat \<Rightarrow> 'v event list \<Rightarrow> 'v world \<Rightarrow> 'v world result" where
  "run n [] w = returns w"
| "run n (e # es) w = and_then (step n e w) (run n es)"



text \<open>
  Two facts the callbacks maintain: a binding exists only between a resolved source and
  a resolved target, and the target listener listens to the resolved target.
\<close>

definition binding_wellformed :: "property_connection \<Rightarrow> bool" where
  "binding_wellformed c =
     ((case binding c of None \<Rightarrow> True | Some (s, p) \<Rightarrow> source_item c = Some s \<and> target_item c \<noteq> None)
      \<and> (case target_property_changed_listener c of None \<Rightarrow> True | Some t \<Rightarrow> target_item c = Some t))"

text \<open>The sets an event makes from outside, and the events that register a target.\<close>

fun external_sets :: "'v event \<Rightarrow> (obj \<times> string \<times> 'v option) list" where
  "external_sets (SetAttr ob name v) = [(ob, name, v)]"
| "external_sets _ = []"

fun is_target_registered :: "'v event \<Rightarrow> bool" where
  "is_target_registered (TargetRegistered x) = True"
| "is_target_registered _ = False"

text \<open>Objects without attribute values and without a connection yet, for examples.\<close>

definition no_connection :: property_connection where
  "no_connection =
     \<lparr>uuid = [], closed = False, parent_specifier = None, parent_item = None,
      source_specifier = None, source_property = None,
      target_specifier = None, target_property = None,
      source_item = None, target_item = None,
      binding = None, target_property_changed_listener = None, suppress = False\<rparr>"

definition plain_objects :: "int world" where
  "plain_objects =
     \<lparr>attrs = (\<lambda>ob name. None), obj_uuid = (\<lambda>ob. replicate ob CHR ''u''),
      setattr_log = [], conn = no_connection\<rparr>"

text \<open>
  A connection bound in both directions: the property \<open>a\<close> of object 1 with the
  property \<open>b\<close> of object 2.
\<close>

definition bound_pair :: "int world" where
  "bound_pair =
     plain_objects\<lparr>conn := no_connection\<lparr>uuid := ''c'',
        source_property := Some ''a'', target_property := Some ''b'',
        source_item := Some 1, target_item := Some 2,
        binding := Some (1, ''a''), target_property_changed_listener := Some 2\<rparr>\<rparr>"

text \<open>
  The connection constructed over the property \<open>a\<close> of object 1 and the property \<open>b\<close>
  of object 2, both registered; the state it is in after the source has been
  unregistered and registered again, and the state after the target has been.
  \<open>sets_made\<close> gives the sets on record when a call has returned.
\<close>

definition constructed_pair :: "int world" where
  "constructed_pair =
     projr (the (PropertyConnection_init 2 ''c'' (Some 1) (Some ''a'') (Some 2) (Some ''b'') None
                   plain_objects))"

definition source_reregistered :: "int world" where
  "source_reregistered =
     projr (the (run 2 [SourceUnregistered, SourceRegistered 1] constructed_pair))"

definition target_reregistered :: "int world" where
  "target_reregistered =
     projr (the (run 2 [TargetUnregistered, TargetRegistered 2] constructed_pair))"

definition sets_made :: "'v world result \<Rightarrow> (obj \<times> string \<times> 'v option) list option" where
  "sets_made r = (case r of Some (Inr w) \<Rightarrow> Some (setattr_log w) | _ \<Rightarrow> None)"

section \<open>Connection.py: IntervalListConnection\<close>

text \<open>
  An event listener is known by its handle, the object whose event it listens to and
  the event. \<open>listen\<close> opens a listener, \<open>close\<close> on it removes it from the open ones.
\<close>

datatype event_kind = ItemInsertedEvent | ItemRemovedEvent | PropertyChangedEvent

datatype listener = Listener (handle: nat) (listens_to: obj) (listens_for: event_kind)

record interval_list_connection = connection +
  ilc_source_specifier :: "uuid option"
  ilc_target_specifier :: "uuid option"
  item_inserted_event_listener :: "listener option"
  item_removed_event_listener :: "listener option"
  interval_mutated_listeners :: "listener list"
  ilc_source_item :: "obj option"
  ilc_target_item :: "obj option"

text \<open>
  The display items and graphics the connection works on: \<open>graphics\<close> of a display
  item, whether a graphic is an \<open>IntervalGraphic\<close>, its \<open>interval\<close>, and the
  \<open>interval_descriptors\<close> of a line profile graphic. A descriptor is the dictionary
  with the keys \<open>interval\<close> and \<open>color\<close>. \<open>descriptor_assignments\<close> records every
  assignment to \<open>interval_descriptors\<close>, each of which notifies a property change.
\<close>

type_synonym 'i descriptor = "'i \<times> string"

record 'i display_world =
  graphics :: "obj \<Rightarrow> obj list"
  is_interval_graphic :: "obj \<Rightarrow> bool"
  interval :: "obj \<Rightarrow> 'i"
  interval_descriptors :: "obj \<Rightarrow> 'i descriptor list"
  descriptor_assignments :: "(obj \<times> 'i descriptor list) list"
  open_listeners :: "listener list"
  next_handle :: nat
  item_uuid :: "obj \<Rightarrow> uuid"
  has_project :: "obj \<Rightarrow> bool"
  ilc :: interval_list_connection

definition listen :: "obj \<Rightarrow> event_kind \<Rightarrow> 'i display_world \<Rightarrow> listener \<times> 'i display_world" where
  "listen ob ev w =
     (let l = Listener (next_handle w) ob ev
      in (l, w\<lparr>open_listeners := open_listeners w @ [l], next_handle := Suc (next_handle w)\<rparr>))"

definition close_listener :: "listener \<Rightarrow> 'i display_world \<Rightarrow> 'i display_world" where
  "close_listener l w = w\<lparr>open_listeners := removeAll l (open_listeners w)\<rparr>"

text \<open>\<open>detach\<close> and \<open>reattach\<close> of \<open>IntervalListConnection.__init__\<close>.\<close>

definition detach :: "'i display_world \<Rightarrow> 'i display_world" where
  "detach w =
     (let w' = fold close_listener (interval_mutated_listeners (ilc w)) w
      in w'\<lparr>ilc := (ilc w')\<lparr>interval_mutated_listeners := []\<rparr>\<rparr>)"

fun track_regions :: "obj list \<Rightarrow> 'i descriptor list \<Rightarrow> 'i display_world \<Rightarrow> 'i descriptor list \<times> 'i display_world" where
  "track_regions [] ds w = (ds, w)"
| "track_regions (region # regions) ds w =
     (if is_interval_graphic w region
      then (let (l, w') = listen region PropertyChangedEvent w
            in track_regions regions (ds @ [(interval w region, ''#F00'')])
                 (w'\<lparr>ilc := (ilc w')\<lparr>interval_mutated_listeners :=
                                        interval_mutated_listeners (ilc w') @ [l]\<rparr>\<rparr>))
      else track_regions regions ds w)"

definition assign_interval_descriptors :: "obj \<Rightarrow> 'i descriptor list \<Rightarrow> 'i display_world \<Rightarrow> 'i display_world" where
  "assign_interval_descriptors tgt ds w =
     w\<lparr>interval_descriptors := (interval_descriptors w)(tgt := ds),
       descriptor_assignments := descriptor_assignments w @ [(tgt, ds)]\<rparr>"

definition reattach :: "'i display_world \<Rightarrow> 'i display_world" where
  "reattach w =
     (let w1 = detach w;
          (ds, w2) = (case ilc_source_item (ilc w1) of
                        None \<Rightarrow> ([], w1)
                      | Some src \<Rightarrow> track_regions (graphics w1 src) [] w1)
      in case ilc_target_item (ilc w2) of
           None \<Rightarrow> w2
         | Some tgt \<Rightarrow>
             if interval_descriptors w2 tgt \<noteq> ds
             then assign_interval_descriptors tgt ds w2
             else w2)"

text \<open>
  The callbacks \<open>item_inserted\<close>, \<open>item_removed\<close>, \<open>source_registered\<close>,
  \<open>target_registered\<close> and \<open>unregistered\<close>.
\<close>

definition item_inserted :: "string \<Rightarrow> 'i display_world \<Rightarrow> 'i display_world" where
  "item_inserted key w =
     (if key = ''graphics'' \<and> ilc_target_item (ilc w) \<noteq> None then reattach w else w)"

definition item_removed :: "string \<Rightarrow> 'i display_world \<Rightarrow> 'i display_world" where
  "item_removed key w =
     (if key = ''graphics'' \<and> ilc_target_item (ilc w) \<noteq> None then reattach w else w)"

definition ilc_source_registered :: "'i display_world \<Rightarrow> 'i display_world" where
  "ilc_source_registered w =
     reattach
       (case ilc_source_item (ilc w) of
          None \<Rightarrow> w
        | Some src \<Rightarrow>
            (let (l1, w1) = listen src ItemInsertedEvent w;
                 (l2, w2) = listen src ItemRemovedEvent w1
             in w2\<lparr>ilc := (ilc w2)\<lparr>item_inserted_event_listener := Some l1,
                                    item_removed_event_listener := Some l2\<rparr>\<rparr>))"

definition ilc_target_registered :: "'i display_world \<Rightarrow> 'i display_world" where
  "ilc_target_registered w = reattach w"


text \<open>
  \<open>IntervalListConnection.__init__\<close>. A specifier is written for the line profile only
  when it has a project; the parent and the display item passed in belong to one.
\<close>

definition IntervalListConnection_init ::
  "uuid \<Rightarrow> obj option \<Rightarrow> obj option \<Rightarrow> obj option \<Rightarrow> 'i display_world \<Rightarrow> 'i display_world" where
  "IntervalListConnection_init u display_item line_profile parent w =
     (let c = \<lparr>uuid = u, closed = False,
               parent_specifier = map_option (item_uuid w) parent,
               parent_item = parent,
               ilc_source_specifier = map_option (item_uuid w) display_item,
               ilc_target_specifier =
                 (case line_profile of
                    None \<Rightarrow> None
                  | Some lp \<Rightarrow> if has_project w lp then Some (item_uuid w lp) else None),
               item_inserted_event_listener = None,
               item_removed_event_listener = None,
               interval_mutated_listeners = [],
               ilc_source_item = display_item,
               ilc_target_item = line_profile\<rparr>;
          w0 = w\<lparr>ilc := c\<rparr>;
          w1 = (if display_item \<noteq> None then ilc_source_registered w0 else w0)
      in if line_profile \<noteq> None then ilc_target_registered w1 else w1)"

text \<open>
  \<open>IntervalListConnection\<close> defines no \<open>close\<close>: the call reaches the inherited one.
  Modelled from the spec: \<open>PersistentObject.close\<close> (\<open>Persistence\<close> is not under src/)
  marks the object closed; the listener fields of the connection are private to
  \<open>IntervalListConnection\<close> and the inherited method does not reach them.
\<close>

definition IntervalListConnection_close :: "'i display_world \<Rightarrow> 'i display_world" where
  "IntervalListConnection_close w = w\<lparr>ilc := (ilc w)\<lparr>closed := True\<rparr>\<rparr>"

text \<open>
  The three triggers of a recomputation. A graphic is inserted into or removed from
  the graphics of a display item, and the open \<open>item_inserted_event\<close> or
  \<open>item_removed_event\<close> listener of the connection on that display item runs its
  callback with the key \<open>graphics\<close>; the interval of a graphic is set, and the
  connection's open listener on that graphic runs \<open>lambda k: reattach()\<close>.
\<close>

definition hears :: "listener option \<Rightarrow> obj \<Rightarrow> 'i display_world \<Rightarrow> bool" where
  "hears lo ob w = (case lo of None \<Rightarrow> False | Some l \<Rightarrow> listens_to l = ob \<and> l \<in> set (open_listeners w))"

definition insert_graphic :: "obj \<Rightarrow> nat \<Rightarrow> obj \<Rightarrow> 'i display_world \<Rightarrow> 'i display_world" where
  "insert_graphic d i g w =
     (let w' = w\<lparr>graphics := (graphics w)(d := take i (graphics w d) @ g # drop i (graphics w d))\<rparr>
      in if hears (item_inserted_event_listener (ilc w')) d w' then item_inserted ''graphics'' w' else w')"

definition remove_graphic :: "obj \<Rightarrow> obj \<Rightarrow> 'i display_world \<Rightarrow> 'i display_world" where
  "remove_graphic d g w =
     (let w' = w\<lparr>graphics := (graphics w)(d := remove1 g (graphics w d))\<rparr>
      in if hears (item_removed_event_listener (ilc w')) d w' then item_removed ''graphics'' w' else w')"

definition set_interval :: "obj \<Rightarrow> 'i \<Rightarrow> 'i display_world \<Rightarrow> 'i display_world" where
  "set_interval g v w =
     (let w' = w\<lparr>interval := (interval w)(g := v)\<rparr>
      in if list_ex (\<lambda>l. hears (Some l) g w') (interval_mutated_listeners (ilc w'))
         then reattach w' else w')"

text \<open>
  The list a recomputation projects from the source display: one descriptor for every
  interval graphic among its graphics, in order, with the fixed colour.
\<close>

definition tracked_descriptors :: "'i display_world \<Rightarrow> 'i descriptor list" where
  "tracked_descriptors w =
     (case ilc_source_item (ilc w) of
        None \<Rightarrow> []
      | Some src \<Rightarrow> map (\<lambda>g. (interval w g, ''#F00'')) (filter (is_interval_graphic w) (graphics w src)))"

text \<open>
  Two states that differ at most in the listeners: the open listeners, the next handle
  and the interval listeners the connection holds.
\<close>

definition same_display :: "'i display_world \<Rightarrow> 'i display_world \<Rightarrow> bool" where
  "same_display w w' =
     (graphics w' = graphics w \<and> is_interval_graphic w' = is_interval_graphic w
      \<and> interval w' = interval w \<and> interval_descriptors w' = interval_descriptors w
      \<and> descriptor_assignments w' = descriptor_assignments w
      \<and> ilc_source_item (ilc w') = ilc_source_item (ilc w)
      \<and> ilc_target_item (ilc w') = ilc_target_item (ilc w)
      \<and> item_inserted_event_listener (ilc w') = item_inserted_event_listener (ilc w)
      \<and> item_removed_event_listener (ilc w') = item_removed_event_listener (ilc w)
      \<and> uuid (ilc w') = uuid (ilc w) \<and> closed (ilc w') = closed (ilc w))"

text \<open>
  A display item 1 with an interval graphic 10 and another graphic 11, and a line
  profile 2; the connection constructed over them.
\<close>

definition no_interval_list_connection :: interval_list_connection where
  "no_interval_list_connection =
     \<lparr>uuid = [], closed = False, parent_specifier = None, parent_item = None,
      ilc_source_specifier = None, ilc_target_specifier = None,
      item_inserted_event_listener = None, item_removed_event_listener = None,
      interval_mutated_listeners = [], ilc_source_item = None, ilc_target_item = None\<rparr>"

definition plain_display :: "(int \<times> int) display_world" where
  "plain_display =
     \<lparr>graphics = (\<lambda>d. [])(1 := [10, 11]), is_interval_graphic = (\<lambda>g. g = 10),
      interval = (\<lambda>g. (0, 5)), interval_descriptors = (\<lambda>t. []),
      descriptor_assignments = [], open_listeners = [], next_handle = 0,
      item_uuid = (\<lambda>ob. replicate ob CHR ''u''), has_project = (\<lambda>ob. True),
      ilc = no_interval_list_connection\<rparr>"

definition connected_display :: "(int \<times> int) display_world" where
  "connected_display = IntervalListConnection_init ''i'' (Some 1) (Some 2) None plain_display"

text \<open>
  \<open>connection_factory\<close>: the type is looked up in \<open>build_map\<close> and the class found is
  called without arguments. \<open>u\<close> is the uuid the new object receives at creation.
\<close>

datatype ('v, 'i) built = BuiltProperty "'v world" | BuiltIntervalList "'i display_world"

definition connection_factory ::
  "nat \<Rightarrow> uuid \<Rightarrow> 'v world \<Rightarrow> 'i display_world \<Rightarrow> (string \<Rightarrow> string) \<Rightarrow> ('v, 'i) built option result" where
  "connection_factory n u pw dw lookup_id =
     (let type = lookup_id ''type''
      in if type = ''property-connection''
         then and_then (PropertyConnection_init n u None None None None None pw)
                (\<lambda>w. returns (Some (BuiltProperty w)))
         else if type = ''interval-list-connection''
         then returns (Some (BuiltIntervalList (IntervalListConnection_init u None None None dw)))
         else returns None)"

section \<open>Schema: entities, containers and events\<close>

text \<open>
  Modelled from the spec: the module \<open>Schema\<close> (entities, their fields and the entity
  context) is not under src/; only its test, \<open>Schema_test.py\<close>, is. A field is a
  scalar property, a single reference or component, or an array of references or of
  components. A component is owned by the object that holds it; a reference is not.
\<close>

datatype literal = LNone | LBool bool | LInt int | LStr string

datatype kind = Reference | Component

datatype field =
    PropertyField literal
  | ItemField kind "obj option"
  | ArrayField kind "obj list"

record entity =
  entity_type :: string
  entity_uuid :: uuid
  modified :: nat
  container :: "obj option"
  field_values :: "string \<Rightarrow> field option"

datatype entity_event =
    PropertyChanged string
  | ItemInserted string obj nat
  | ItemRemoved string obj nat

text \<open>
  The entity context with its objects, the events fired so far with their senders, the
  clock that stamps \<open>modified\<close>, and the next free object identity.
\<close>

record heap =
  entities :: "obj \<Rightarrow> entity option"
  fired :: "(obj \<times> entity_event) list"
  clock :: nat
  next_obj :: obj

datatype schema_error = SchemaError | NotInArray | OwnershipError

text \<open>
  The elementary updates: the container of an object is set (of the object a field
  holds, if it holds one); a field of an object is stored, which stamps \<open>modified\<close>;
  an event is fired.
\<close>

definition set_container :: "obj \<Rightarrow> obj option \<Rightarrow> heap \<Rightarrow> heap" where
  "set_container c v h =
     (case entities h c of
        None \<Rightarrow> h
      | Some e \<Rightarrow> h\<lparr>entities := (entities h)(c := Some (e\<lparr>container := v\<rparr>))\<rparr>)"

definition set_container_opt :: "obj option \<Rightarrow> obj option \<Rightarrow> heap \<Rightarrow> heap" where
  "set_container_opt x v h = (case x of None \<Rightarrow> h | Some c \<Rightarrow> set_container c v h)"

definition store_field :: "obj \<Rightarrow> string \<Rightarrow> field \<Rightarrow> heap \<Rightarrow> heap" where
  "store_field p key f h =
     (case entities h p of
        None \<Rightarrow> h
      | Some e \<Rightarrow>
          h\<lparr>entities := (entities h)(p := Some (e\<lparr>field_values := (field_values e)(key := Some f),
                                                    modified := Suc (clock h)\<rparr>)),
            clock := Suc (clock h)\<rparr>)"

definition fire :: "obj \<Rightarrow> entity_event \<Rightarrow> heap \<Rightarrow> heap" where
  "fire p ev h = h\<lparr>fired := fired h @ [(p, ev)]\<rparr>"

definition field_at :: "heap \<Rightarrow> obj \<Rightarrow> string \<Rightarrow> field option" where
  "field_at h p key = (case entities h p of None \<Rightarrow> None | Some e \<Rightarrow> field_values e key)"

text \<open>
  Modelled from the spec: an entity type declares its fields; \<open>create\<close> allocates a
  new instance under the next free identity, with a fresh uuid, \<open>modified\<close> set to
  the current time, no container, and every field in its initial state: a property at
  its default, a single reference or component empty, an array empty.
\<close>

datatype field_spec = Prop literal | Single kind | Array kind



text \<open>Python's \<open>list.insert\<close>: an index beyond the end appends.\<close>

definition list_insert :: "nat \<Rightarrow> 'a \<Rightarrow> 'a list \<Rightarrow> 'a list" where
  "list_insert i x xs = take i xs @ x # drop i xs"

text \<open>
  Modelled from the spec: an object cannot have more than one owning container
  simultaneously, and a move is a removal followed by an insertion. An object can
  therefore be made a component only while it is \<open>unattached\<close>, an object of the
  context without a container; for any other object the operation fails with
  \<open>OwnershipError\<close> and changes nothing.
\<close>

definition unattached :: "heap \<Rightarrow> obj \<Rightarrow> bool" where
  "unattached h c = (case entities h c of None \<Rightarrow> False | Some e \<Rightarrow> container e = None)"

text \<open>
  Modelled from the spec: \<open>insert_item(key, index, value)\<close> puts the value into the
  array field, stamps \<open>modified\<close>, makes the parent the container of the value when
  the array holds components, and then fires \<open>item_inserted(key, value, index)\<close> once.
  An unknown field name, or a field that is not an array, is a schema error.
\<close>

definition insert_item :: "obj \<Rightarrow> string \<Rightarrow> nat \<Rightarrow> obj \<Rightarrow> heap \<Rightarrow> schema_error + heap" where
  "insert_item p key index item h =
     (case field_at h p key of
        Some (ArrayField k xs) \<Rightarrow>
          if k = Component \<and> \<not> unattached h item then Inl OwnershipError
          else (let h1 = store_field p key (ArrayField k (list_insert index item xs)) h;
                    h2 = (if k = Component then set_container item (Some p) h1 else h1)
                in Inr (fire p (ItemInserted key item index) h2))
      | _ \<Rightarrow> Inl SchemaError)"





text \<open>
  Modelled from the spec: setting a single-valued reference or component field stores
  the value, stamps \<open>modified\<close> and fires \<open>property_changed(name)\<close>. For a component
  field the child that was held loses its container and the new child, if any, gets
  the parent as its container.
\<close>

definition set_item_field :: "obj \<Rightarrow> string \<Rightarrow> obj option \<Rightarrow> heap \<Rightarrow> schema_error + heap" where
  "set_item_field p key v h =
     (case field_at h p key of
        Some (ItemField k old) \<Rightarrow>
          if k = Component \<and> (case v of None \<Rightarrow> False | Some c \<Rightarrow> \<not> unattached h c)
          then Inl OwnershipError
          else (let h1 = store_field p key (ItemField k v) h;
                    h2 = (if k = Component then set_container_opt old None h1 else h1);
                    h3 = (if k = Component then set_container_opt v (Some p) h2 else h2)
                in Inr (fire p (PropertyChanged key) h3))
      | _ \<Rightarrow> Inl SchemaError)"


text \<open>
  The object a component field or an array of components holds, the objects the
  context has, and the container of an object.
\<close>

definition holds :: "heap \<Rightarrow> obj \<Rightarrow> string \<Rightarrow> obj \<Rightarrow> bool" where
  "holds h p key c =
     (case field_at h p key of
        Some (ItemField Component v) \<Rightarrow> v = Some c
      | Some (ArrayField Component xs) \<Rightarrow> c \<in> set xs
      | _ \<Rightarrow> False)"

definition present :: "heap \<Rightarrow> obj \<Rightarrow> bool" where
  "present h ob = (entities h ob \<noteq> None)"

definition container_of :: "heap \<Rightarrow> obj \<Rightarrow> obj option" where
  "container_of h c = (case entities h c of None \<Rightarrow> None | Some e \<Rightarrow> container e)"

text \<open>The uuid of an object of the context.\<close>

definition uuid_of :: "heap \<Rightarrow> obj \<Rightarrow> uuid option" where
  "uuid_of h ob = map_option entity_uuid (entities h ob)"










text \<open>
  The objects of \<open>Schema_test.py\<close>: an item type with a flag, a container type with an
  array of components, an array of references, a component and a reference; the empty
  context; the container created first, as object 0.
\<close>

definition item_model :: "(string \<times> field_spec) list" where
  "item_model = [(''flag'', Prop LNone)]"

definition container_model :: "(string \<times> field_spec) list" where
  "container_model =
     [(''c_items'', Array Component), (''r_items'', Array Reference),
      (''c_item'', Single Component), (''r_item'', Single Reference)]"







section \<open>Schema: serialization\<close>

text \<open>
  Modelled from the spec: \<open>write_to_dict\<close> and \<open>read_from_dict\<close> belong to the modules
  \<open>Schema\<close> and \<open>Persistence\<close>, which are not under src/. The serialized record is a
  mapping with the keys \<open>type\<close>, \<open>uuid\<close> and \<open>modified\<close> followed by one key per
  declared field: a scalar as its literal, a reference as its specifier string or null,
  a component as the nested record, an array as the sequence of records or of
  specifier strings.
\<close>

datatype data =
    DNull
  | DBool bool
  | DInt int
  | DStr string
  | DList "data list"
  | DDict "(string \<times> data) list"

text \<open>
  An entity as serialization sees it: the tree of its components. A reference holds a
  specifier (the uuid of the object referred to) and, while it is resolved, the object.
  The uuid and \<open>modified\<close> are kept in their string forms.
\<close>

datatype reference = Ref (specifier: uuid) (resolved: "obj option")

datatype item = Item (item_type: string) (item_uuid: uuid) (item_modified: string)
                     (item_fields: "(string \<times> fvalue) list")
  and fvalue =
    ScalarV literal
  | ReferenceV "reference option"
  | ComponentV "item option"
  | ReferenceArrayV "reference list"
  | ComponentArrayV "item list"

type_synonym schema = "string \<Rightarrow> (string \<times> field_spec) list option"

text \<open>
  \<open>write_to_dict\<close>: scalars are written as they are, components recursively, and of a
  reference only the specifier.
\<close>

fun write_literal :: "literal \<Rightarrow> data" where
  "write_literal LNone = DNull"
| "write_literal (LBool b) = DBool b"
| "write_literal (LInt i) = DInt i"
| "write_literal (LStr s) = DStr s"

definition write_reference :: "reference \<Rightarrow> data" where
  "write_reference r = DStr (specifier r)"

primrec write_to_dict :: "item \<Rightarrow> data"
  and write_value :: "fvalue \<Rightarrow> data" where
  "write_to_dict (Item t u m fs) =
     DDict ((''type'', DStr t) # (''uuid'', DStr u) # (''modified'', DStr m)
            # map (map_prod id write_value) fs)"
| "write_value (ScalarV l) = write_literal l"
| "write_value (ReferenceV r) = (case r of None \<Rightarrow> DNull | Some x \<Rightarrow> write_reference x)"
| "write_value (ComponentV c) = (case map_option write_to_dict c of None \<Rightarrow> DNull | Some d \<Rightarrow> d)"
| "write_value (ReferenceArrayV rs) = DList (map write_reference rs)"
| "write_value (ComponentArrayV cs) = DList (map write_to_dict cs)"

text \<open>
  \<open>read_from_dict\<close>: the record names its entity type, the schema gives the fields of
  the type, and each field is read as its kind says: scalars and components are
  hydrated recursively, a reference is stored as an unresolved specifier. A record
  without \<open>type\<close>, \<open>uuid\<close> or \<open>modified\<close>, or of an unknown type, fails to read. A
  field the record does not have is read as its initial value.
\<close>

fun read_literal :: "data \<Rightarrow> literal option" where
  "read_literal DNull = Some LNone"
| "read_literal (DBool b) = Some (LBool b)"
| "read_literal (DInt i) = Some (LInt i)"
| "read_literal (DStr s) = Some (LStr s)"
| "read_literal _ = None"

fun read_reference :: "data \<Rightarrow> reference option" where
  "read_reference (DStr u) = Some (Ref u None)"
| "read_reference _ = None"

fun read_references :: "data list \<Rightarrow> reference list option" where
  "read_references [] = Some []"
| "read_references (d # ds) =
     (case read_reference d of
        None \<Rightarrow> None
      | Some r \<Rightarrow> map_option ((#) r) (read_references ds))"

function (sequential) read_from_dict :: "schema \<Rightarrow> data \<Rightarrow> item option"
  and read_fields :: "schema \<Rightarrow> (string \<times> field_spec) list \<Rightarrow> (string \<times> data) list \<Rightarrow> (string \<times> fvalue) list option"
  and read_value :: "schema \<Rightarrow> field_spec \<Rightarrow> data option \<Rightarrow> fvalue option"
  and read_items :: "schema \<Rightarrow> data list \<Rightarrow> item list option"
where
  "read_from_dict S (DDict kvs) =
     (case (map_of kvs ''type'', map_of kvs ''uuid'', map_of kvs ''modified'') of
        (Some (DStr t), Some (DStr u), Some (DStr m)) \<Rightarrow>
          (case S t of
             None \<Rightarrow> None
           | Some specs \<Rightarrow> map_option (Item t u m) (read_fields S specs kvs))
      | _ \<Rightarrow> None)"
| "read_from_dict S _ = None"
| "read_fields S [] kvs = Some []"
| "read_fields S ((k, spec) # specs) kvs =
     (case read_value S spec (map_of kvs k) of
        None \<Rightarrow> None
      | Some v \<Rightarrow> map_option ((#) (k, v)) (read_fields S specs kvs))"
| "read_value S (Prop d) None = Some (ScalarV d)"
| "read_value S (Prop d) (Some x) = map_option ScalarV (read_literal x)"
| "read_value S (Single k) None = Some (case k of Reference \<Rightarrow> ReferenceV None | Component \<Rightarrow> ComponentV None)"
| "read_value S (Single Reference) (Some DNull) = Some (ReferenceV None)"
| "read_value S (Single Reference) (Some x) = map_option (ReferenceV \<circ> Some) (read_reference x)"
| "read_value S (Single Component) (Some DNull) = Some (ComponentV None)"
| "read_value S (Single Component) (Some x) = map_option (ComponentV \<circ> Some) (read_from_dict S x)"
| "read_value S (Array k) None = Some (case k of Reference \<Rightarrow> ReferenceArrayV [] | Component \<Rightarrow> ComponentArrayV [])"
| "read_value S (Array Reference) (Some (DList ds)) = map_option ReferenceArrayV (read_references ds)"
| "read_value S (Array Component) (Some (DList ds)) = map_option ComponentArrayV (read_items S ds)"
| "read_value S (Array k) (Some x) = None"
| "read_items S [] = Some []"
| "read_items S (d # ds) =
     (case read_from_dict S d of
        None \<Rightarrow> None
      | Some i \<Rightarrow> map_option ((#) i) (read_items S ds))"
  by pat_completeness auto


termination
proof (relation "inv_image (less_than <*lex*> less_than <*lex*> less_than)
    (\<lambda>x. case x of
        Inl (Inl (S, d)) \<Rightarrow> (size d, 2::nat, 0::nat)
      | Inl (Inr (S, specs, kvs)) \<Rightarrow> (size (DDict kvs), 1, length specs)
      | Inr (Inl (S, spec, x)) \<Rightarrow> ((case x of None \<Rightarrow> 0 | Some d \<Rightarrow> size d), 3, 0)
      | Inr (Inr (S, ds)) \<Rightarrow> (size (DList ds), 1, 0))")
  show "wf (inv_image (less_than <*lex*> less_than <*lex*> less_than)
    (\<lambda>x. case x of
        Inl (Inl (S, d)) \<Rightarrow> (size d, 2::nat, 0::nat)
      | Inl (Inr (S, specs, kvs)) \<Rightarrow> (size (DDict kvs), 1, length specs)
      | Inr (Inl (S, spec, x)) \<Rightarrow> ((case x of None \<Rightarrow> 0 | Some d \<Rightarrow> size d), 3, 0)
      | Inr (Inr (S, ds)) \<Rightarrow> (size (DList ds), 1, 0)))"
    by (intro wf_inv_image wf_lex_prod wf_less_than)
qed (auto dest!: map_of_SomeD split: option.splits intro: less_SucI[OF size_list_estimation])


text \<open>
  The same entity with every reference unresolved: the specifier is kept, the object
  is dropped.
\<close>

fun unresolve :: "reference \<Rightarrow> reference" where
  "unresolve (Ref u t) = Ref u None"

primrec unresolved :: "item \<Rightarrow> item"
  and unresolved_value :: "fvalue \<Rightarrow> fvalue" where
  "unresolved (Item t u m fs) = Item t u m (map (map_prod id unresolved_value) fs)"
| "unresolved_value (ScalarV l) = ScalarV l"
| "unresolved_value (ReferenceV r) = ReferenceV (map_option unresolve r)"
| "unresolved_value (ComponentV c) = ComponentV (map_option unresolved c)"
| "unresolved_value (ReferenceArrayV rs) = ReferenceArrayV (map unresolve rs)"
| "unresolved_value (ComponentArrayV cs) = ComponentArrayV (map unresolved cs)"

text \<open>
  An entity conforms to the schema when its type is declared, its fields are the
  declared ones, in order and each of the declared kind, none of them is named like a
  key of the record header, and its components conform.
\<close>

fun fits :: "field_spec \<Rightarrow> fvalue \<Rightarrow> bool" where
  "fits (Prop d) (ScalarV l) = True"
| "fits (Single Reference) (ReferenceV r) = True"
| "fits (Single Component) (ComponentV c) = True"
| "fits (Array Reference) (ReferenceArrayV rs) = True"
| "fits (Array Component) (ComponentArrayV cs) = True"
| "fits _ _ = False"

definition reserved_keys :: "string list" where
  "reserved_keys = [''type'', ''uuid'', ''modified'']"

definition declared :: "schema \<Rightarrow> string \<Rightarrow> (string \<times> fvalue) list \<Rightarrow> bool" where
  "declared S t fs =
     (case S t of
        None \<Rightarrow> False
      | Some specs \<Rightarrow>
          map fst fs = map fst specs \<and> distinct (map fst specs)
          \<and> list_all (\<lambda>k. k \<notin> set (map fst specs)) reserved_keys
          \<and> list_all2 fits (map snd specs) (map snd fs))"

primrec conforms :: "schema \<Rightarrow> item \<Rightarrow> bool"
  and conforms_value :: "schema \<Rightarrow> fvalue \<Rightarrow> bool" where
  "conforms S (Item t u m fs) =
     (declared S t fs \<and> list_all snd (map (map_prod id (conforms_value S)) fs))"
| "conforms_value S (ScalarV l) = True"
| "conforms_value S (ReferenceV r) = True"
| "conforms_value S (ComponentV c) = (case map_option (conforms S) c of None \<Rightarrow> True | Some b \<Rightarrow> b)"
| "conforms_value S (ReferenceArrayV rs) = True"
| "conforms_value S (ComponentArrayV cs) = list_all id (map (conforms S) cs)"

text \<open>The schema of the test, and a container with a component and two references.\<close>

definition test_schema :: schema where
  "test_schema = map_of [(''item'', item_model), (''c'', container_model)]"

definition test_item :: item where
  "test_item =
     Item ''c'' ''u0'' ''t0''
       [(''c_items'', ComponentArrayV [Item ''item'' ''u1'' ''t1'' [(''flag'', ScalarV (LBool True))]]),
        (''r_items'', ReferenceArrayV [Ref ''u3'' (Some 3)]),
        (''c_item'', ComponentV None),
        (''r_item'', ReferenceV (Some (Ref ''u6'' (Some 6))))]"


section \<open>Properties of PropertyConnection\<close>

lemma and_then_simps [simp]:
  "and_then None f = None"
  "and_then (Some (Inl e)) f = Some (Inl e)"
  "and_then (Some (Inr x)) f = f x"
  "and_then (returns x) f = f x"
  "and_then (raises e) f = raises e"
  by (simp_all add: and_then_def returns_def raises_def)

lemma and_then_Inr:
  "and_then m f = Some (Inr y) \<longleftrightarrow> (\<exists>x. m = Some (Inr x) \<and> f x = Some (Inr y))"
  by (auto simp: and_then_def split: option.splits sum.splits)

lemma returns_eq [simp]: "returns x = Some (Inr y) \<longleftrightarrow> x = y"
  "raises e \<noteq> Some (Inr y)" "returns x \<noteq> None" "raises e \<noteq> None"
  by (simp_all add: returns_def raises_def)

lemma set_target_on_conn:
  assumes sa: "\<And>ob name v w w'. sa ob name v w = Some (Inr w') \<Longrightarrow> conn w' = conn w"
    and r: "set_target_from_source_on sa v w = Some (Inr w')"
  shows "conn w' = conn w"
  using r
  by (auto simp: set_target_from_source_on_def and_then_Inr with_suppress_def
      split: if_splits option.splits dest!: sa)

lemma set_source_on_conn:
  assumes sa: "\<And>ob name v w w'. sa ob name v w = Some (Inr w') \<Longrightarrow> conn w' = conn w"
    and r: "set_source_from_target_on sa v w = Some (Inr w')"
  shows "conn w' = conn w"
  using r
  by (auto simp: set_source_from_target_on_def and_then_Inr with_suppress_def
      split: if_splits option.splits prod.splits dest!: sa)

lemma setattr_conn:
  "setattr n ob name v w = Some (Inr w') \<Longrightarrow> conn w' = conn w"
proof (induction n arbitrary: ob name v w w')
  case 0
  then show ?case by simp
next
  case (Suc n)
  from Suc.prems obtain w1 where
    t: "target_listener_fire (setattr n) ob name (store_attr ob name v w) = Some (Inr w1)"
    and b: "binding_listener_fire (setattr n) ob name w1 = Some (Inr w')"
    by (auto simp: and_then_Inr)
  have c1: "conn w1 = conn w"
    using t set_source_on_conn[of "setattr n", OF Suc.IH]
    by (auto simp: target_listener_fire_def store_attr_def split: if_splits)
  have "conn w' = conn w1"
    using b set_target_on_conn[of "setattr n", OF Suc.IH]
    by (auto simp: binding_listener_fire_def split: if_splits option.splits prod.splits)
  with c1 show ?case by simp
qed


lemma set_target_from_source_conn:
  "set_target_from_source n v w = Some (Inr w') \<Longrightarrow> conn w' = conn w"
  unfolding set_target_from_source_def
  by (rule set_target_on_conn[of "setattr n"]) (auto dest: setattr_conn)

lemma propagation_from_source:
  assumes "\<not> closed (conn w)" "\<not> suppress (conn w)"
    "target_item (conn w) = Some t" "target_property (conn w) = Some tp"
    "binding (conn w) = Some (s, sp)"
    "target_property_changed_listener (conn w) = Some t \<or> target_property_changed_listener (conn w) = None"
    "(s, sp) \<noteq> (t, tp)"
  shows "\<exists>w'. setattr (Suc (Suc n)) s sp v w = Some (Inr w')
           \<and> setattr_log w' = setattr_log w @ [(s, sp, v), (t, tp, v)]
           \<and> conn w' = conn w"
  using assms
  by (auto simp: target_listener_fire_def binding_listener_fire_def store_attr_def
      set_target_from_source_on_def set_source_from_target_on_def with_suppress_def)

lemma propagation_from_target:
  assumes "\<not> closed (conn w)" "\<not> suppress (conn w)"
    "target_item (conn w) = Some t" "target_property (conn w) = Some tp"
    "binding (conn w) = Some (s, sp)"
    "target_property_changed_listener (conn w) = Some t"
    "(s, sp) \<noteq> (t, tp)"
  shows "\<exists>w'. setattr (Suc (Suc n)) t tp v w = Some (Inr w')
           \<and> setattr_log w' = setattr_log w @ [(t, tp, v), (s, sp, v)]
           \<and> conn w' = conn w"
  using assms
  by (auto simp: target_listener_fire_def binding_listener_fire_def store_attr_def
      set_target_from_source_on_def set_source_from_target_on_def with_suppress_def)

lemma suppressed_noop:
  assumes "\<not> closed (conn w)" "suppress (conn w)"
  shows "set_target_from_source m x w = Some (Inr w)" "set_source_from_target m x w = Some (Inr w)"
  using assms
  by (simp_all add: set_target_from_source_def set_source_from_target_def
      set_target_from_source_on_def set_source_from_target_on_def returns_def)


lemma configure_binding_wf:
  "configure_binding n w = Some (Inr w') \<Longrightarrow> binding_wellformed (conn w) \<Longrightarrow> binding_wellformed (conn w')"
  by (auto simp: configure_binding_def binding_wellformed_def
      split: option.splits if_splits prod.splits dest!: set_target_from_source_conn)

lemma configure_target_wf:
  "configure_target n w = Some (Inr w') \<Longrightarrow> binding_wellformed (conn w) \<Longrightarrow> binding_wellformed (conn w')"
  unfolding configure_target_def
  by (auto split: if_splits option.splits dest!: configure_binding_wf simp: binding_wellformed_def)

lemma init_wf:
  "PropertyConnection_init n u src sp tgt tp par w0 = Some (Inr w) \<Longrightarrow> binding_wellformed (conn w)"
  unfolding PropertyConnection_init_def Let_def
  by (auto split: if_splits dest!: configure_target_wf simp: binding_wellformed_def)

lemma step_wf:
  "step n e w = Some (Inr w') \<Longrightarrow> binding_wellformed (conn w) \<Longrightarrow> binding_wellformed (conn w')"
proof (cases e)
  case (SourceRegistered x)
  then show "step n e w = Some (Inr w') \<Longrightarrow> binding_wellformed (conn w) \<Longrightarrow> ?thesis"
    by (auto simp: source_registered_def split: if_splits dest!: configure_binding_wf
        simp: binding_wellformed_def split: option.splits)
next
  case SourceUnregistered
  then show "step n e w = Some (Inr w') \<Longrightarrow> binding_wellformed (conn w) \<Longrightarrow> ?thesis"
    by (auto simp: source_unregistered_def release_binding_def binding_wellformed_def Let_def)
next
  case (TargetRegistered x)
  then show "step n e w = Some (Inr w') \<Longrightarrow> binding_wellformed (conn w) \<Longrightarrow> ?thesis"
    by (auto simp: target_registered_def split: if_splits dest!: configure_target_wf
        simp: binding_wellformed_def split: option.splits)
next
  case TargetUnregistered
  then show "step n e w = Some (Inr w') \<Longrightarrow> binding_wellformed (conn w) \<Longrightarrow> ?thesis"
    by (auto simp: target_unregistered_def release_binding_def binding_wellformed_def Let_def)
next
  case (SetAttr ob name v)
  then show "step n e w = Some (Inr w') \<Longrightarrow> binding_wellformed (conn w) \<Longrightarrow> ?thesis"
    by (auto dest: setattr_conn)
next
  case Close
  then show "step n e w = Some (Inr w') \<Longrightarrow> binding_wellformed (conn w) \<Longrightarrow> ?thesis"
    by (auto simp: PropertyConnection_close_def release_binding_def binding_wellformed_def Let_def)
qed

lemma run_wf:
  "run n es w = Some (Inr w') \<Longrightarrow> binding_wellformed (conn w) \<Longrightarrow> binding_wellformed (conn w')"
  by (induction es arbitrary: w) (auto simp: and_then_Inr dest: step_wf)

lemma unregistered_releases:
  "binding (conn (source_unregistered w)) = None \<or> source_item (conn w) = None"
  "target_property_changed_listener (conn (source_unregistered w)) = None \<or> source_item (conn w) = None"
  "binding (conn (target_unregistered w)) = None \<or> target_item (conn w) = None"
  "target_property_changed_listener (conn (target_unregistered w)) = None \<or> target_item (conn w) = None"
  by (auto simp: source_unregistered_def target_unregistered_def release_binding_def Let_def)

lemma initial_push:
  assumes "\<not> closed (conn w)" "\<not> suppress (conn w)"
    "target_item (conn w) = Some t" "target_property (conn w) = Some tp"
    "binding (conn w) = Some (s, sp)"
  shows "\<exists>w'. set_target_from_source (Suc n) v w = Some (Inr w') \<and> conn w' = conn w"
  using assms
  by (auto simp: set_target_from_source_def target_listener_fire_def binding_listener_fire_def store_attr_def
      set_target_from_source_on_def set_source_from_target_on_def with_suppress_def)

lemma source_registered_binds:
  assumes "binding_wellformed (conn w)" "\<not> closed (conn w)" "\<not> suppress (conn w)"
    "source_item (conn w) = None" "target_item (conn w) = Some t"
    "source_property (conn w) = Some sp" "target_property (conn w) = Some tp"
  shows "\<exists>w'. source_registered (Suc n) x w = Some (Inr w') \<and> binding (conn w') = Some (x, sp)"
proof -
  have b: "binding (conn w) = None"
    using assms(1,4) by (auto simp: binding_wellformed_def split: option.splits)
  let ?w1 = "w\<lparr>conn := (conn w)\<lparr>source_item := Some x, binding := Some (x, sp)\<rparr>\<rparr>"
  obtain w' where "set_target_from_source (Suc n) (attrs w x sp) ?w1 = Some (Inr w')" "conn w' = conn ?w1"
    using initial_push[of ?w1 t tp x sp n "attrs w x sp"] assms by auto
  then show ?thesis
    using assms b by (auto simp: source_registered_def configure_binding_def)
qed

lemma target_registered_binds:
  assumes "binding_wellformed (conn w)" "\<not> closed (conn w)" "\<not> suppress (conn w)"
    "source_item (conn w) = Some s" "target_item (conn w) = None"
    "source_property (conn w) = Some sp" "target_property (conn w) = Some tp"
  shows "\<exists>w'. target_registered (Suc n) x w = Some (Inr w') \<and> binding (conn w') = Some (s, sp)
            \<and> target_property_changed_listener (conn w') = Some x"
proof -
  have b: "binding (conn w) = None" "target_property_changed_listener (conn w) = None"
    using assms(1,5) by (auto simp: binding_wellformed_def split: option.splits)
  let ?w1 = "w\<lparr>conn := (conn w)\<lparr>target_item := Some x, target_property_changed_listener := Some x,
                 binding := Some (s, sp)\<rparr>\<rparr>"
  obtain w' where "set_target_from_source (Suc n) (attrs w s sp) ?w1 = Some (Inr w')" "conn w' = conn ?w1"
    using initial_push[of ?w1 x tp s sp n "attrs w s sp"] assms by auto
  then show ?thesis
    using assms b by (auto simp: target_registered_def configure_target_def configure_binding_def)
qed

lemma dormant_step:
  assumes "binding_wellformed (conn w)" "target_item (conn w) = None" "\<not> is_target_registered e"
  shows "\<exists>w'. step (Suc n) e w = Some (Inr w') \<and> target_item (conn w') = None
           \<and> binding_wellformed (conn w') \<and> setattr_log w' = setattr_log w @ external_sets e"
proof -
  have b: "binding (conn w) = None" "target_property_changed_listener (conn w) = None"
    using assms(1,2) by (auto simp: binding_wellformed_def split: option.splits)
  show ?thesis
    using assms b
    by (cases e)
       (auto simp: source_registered_def configure_binding_def source_unregistered_def
          target_unregistered_def release_binding_def PropertyConnection_close_def Let_def
          binding_wellformed_def target_listener_fire_def binding_listener_fire_def store_attr_def)
qed

lemma dormant_run:
  assumes "binding_wellformed (conn w)" "target_item (conn w) = None" "\<not> list_ex is_target_registered es"
  shows "\<exists>w'. run (Suc n) es w = Some (Inr w') \<and> target_item (conn w') = None
           \<and> binding (conn w') = None \<and> setattr_log w' = setattr_log w @ concat (map external_sets es)"
  using assms
proof (induction es arbitrary: w)
  case Nil
  then show ?case by (auto simp: binding_wellformed_def split: option.splits)
next
  case (Cons e es)
  then obtain w1 where s: "step (Suc n) e w = Some (Inr w1)" "target_item (conn w1) = None"
     "binding_wellformed (conn w1)" "setattr_log w1 = setattr_log w @ external_sets e"
    using dormant_step[of w e n] by auto
  from Cons.IH[OF s(3) s(2)] Cons.prems(3) obtain w' where
    "run (Suc n) es w1 = Some (Inr w')" "target_item (conn w') = None"
    "binding (conn w') = None" "setattr_log w' = setattr_log w1 @ concat (map external_sets es)"
    by auto
  with s show ?case by auto
qed

text \<open>
  C9, as amended. On a closed \<open>PropertyConnection\<close> both propagation methods,
  \<open>__set_target_from_source\<close> and \<open>__set_source_from_target\<close>, raise \<open>AssertionError\<close>
  whatever the value, the suppress flag and the binding are: the assertion is their
  first statement. They do not return silently.
\<close>

theorem closed_connection_fails_fast:
  "closed (conn w) \<Longrightarrow>
     set_target_from_source n v w = Some (Inl AssertionError)
     \<and> set_source_from_target n v w = Some (Inl AssertionError)"
  by (simp add: set_target_from_source_def set_source_from_target_def
      set_target_from_source_on_def set_source_from_target_on_def raises_def)

theorem closed_connection_fails_fast_witness:
  "closed (conn (PropertyConnection_close bound_pair))
   \<and> set_target_from_source 3 (Some 5) (PropertyConnection_close bound_pair) = Some (Inl AssertionError)
   \<and> set_source_from_target 3 (Some 5) (PropertyConnection_close bound_pair) = Some (Inl AssertionError)"
  using closed_connection_fails_fast [of "PropertyConnection_close bound_pair" 3 "Some 5"]
  by (simp add: PropertyConnection_close_def release_binding_def Let_def)

text \<open>
  C2. Take a connection that is open and idle (suppress flag down) with its binding in
  place between the property \<open>sp\<close> of \<open>s\<close> and the distinct property \<open>tp\<close> of \<open>t\<close>.
  Setting the source property from outside returns without error after exactly one
  forwarded set, the one of the target property; setting the target property returns
  without error after exactly one forwarded set, the one of the source property, when
  the target listener is in place (and after none when it is not). Two units of fuel
  are enough, so the mutual updates end. While the suppress flag is up, both
  propagation methods return the state unchanged.
\<close>

theorem reentrant_propagation_suppressed:
  assumes "binding_wellformed (conn w)" "\<not> closed (conn w)" "\<not> suppress (conn w)"
    "binding (conn w) = Some (s, sp)" "target_item (conn w) = Some t"
    "target_property (conn w) = Some tp" "(s, sp) \<noteq> (t, tp)"
  shows "(\<exists>w'. setattr (Suc (Suc n)) s sp v w = Some (Inr w')
            \<and> setattr_log w' = setattr_log w @ [(s, sp, v), (t, tp, v)] \<and> conn w' = conn w)
       \<and> (\<exists>w'. setattr (Suc (Suc n)) t tp v w = Some (Inr w')
            \<and> setattr_log w' = setattr_log w @ (t, tp, v) #
                  (if target_property_changed_listener (conn w) = Some t then [(s, sp, v)] else [])
            \<and> conn w' = conn w)
       \<and> set_source_from_target m x (with_suppress True w) = Some (Inr (with_suppress True w))
       \<and> set_target_from_source m x (with_suppress True w) = Some (Inr (with_suppress True w))"
proof -
  have l: "target_property_changed_listener (conn w) = Some t \<or> target_property_changed_listener (conn w) = None"
    using assms(1,5) by (auto simp: binding_wellformed_def split: option.splits)
  have a: "\<exists>w'. setattr (Suc (Suc n)) s sp v w = Some (Inr w')
            \<and> setattr_log w' = setattr_log w @ [(s, sp, v), (t, tp, v)] \<and> conn w' = conn w"
    using propagation_from_source[OF assms(2,3,5,6,4) l assms(7)] .
  have b: "\<exists>w'. setattr (Suc (Suc n)) t tp v w = Some (Inr w')
            \<and> setattr_log w' = setattr_log w @ (t, tp, v) #
                  (if target_property_changed_listener (conn w) = Some t then [(s, sp, v)] else [])
            \<and> conn w' = conn w"
  proof (cases "target_property_changed_listener (conn w) = Some t")
    case True
    with propagation_from_target[OF assms(2,3,5,6,4) True assms(7), of n v] show ?thesis by simp
  next
    case False
    with l have "target_property_changed_listener (conn w) = None" by simp
    with False assms show ?thesis
      by (auto simp: target_listener_fire_def binding_listener_fire_def store_attr_def)
  qed
  have c: "\<not> closed (conn (with_suppress True w))" "suppress (conn (with_suppress True w))"
    using assms(2) by (simp_all add: with_suppress_def)
  from a b suppressed_noop[OF c] show ?thesis by blast
qed

theorem reentrant_propagation_suppressed_witness:
  "binding_wellformed (conn bound_pair) \<and> \<not> closed (conn bound_pair) \<and> \<not> suppress (conn bound_pair)
   \<and> binding (conn bound_pair) = Some (1, ''a'') \<and> target_item (conn bound_pair) = Some 2
   \<and> target_property (conn bound_pair) = Some ''b'' \<and> (1::nat, ''a'') \<noteq> (2, ''b'')
   \<and> (\<exists>w'. setattr (Suc (Suc 0)) 1 ''a'' (Some 7) bound_pair = Some (Inr w')
          \<and> setattr_log w' = setattr_log bound_pair @ [(1, ''a'', Some 7), (2, ''b'', Some 7)])
   \<and> (\<exists>w'. setattr (Suc (Suc 0)) 2 ''b'' (Some 7) bound_pair = Some (Inr w')
          \<and> setattr_log w' = setattr_log bound_pair @ [(2, ''b'', Some 7), (1, ''a'', Some 7)])"
proof -
  have h1: "binding_wellformed (conn bound_pair)"
    by (simp add: bound_pair_def plain_objects_def no_connection_def binding_wellformed_def)
  have h2: "\<not> closed (conn bound_pair)" and h3: "\<not> suppress (conn bound_pair)"
    and h4: "binding (conn bound_pair) = Some (1, ''a'')"
    and h5: "target_item (conn bound_pair) = Some 2"
    and h6: "target_property (conn bound_pair) = Some ''b''"
    and h8: "target_property_changed_listener (conn bound_pair) = Some 2"
    by (simp_all add: bound_pair_def plain_objects_def no_connection_def)
  have h7: "(1::nat, ''a'') \<noteq> (2, ''b'')" by simp
  from reentrant_propagation_suppressed [OF h1 h2 h3 h4 h5 h6 h7, of 0 "Some 7" 0 None] h8
  have "(\<exists>w'. setattr (Suc (Suc 0)) 1 ''a'' (Some 7) bound_pair = Some (Inr w')
          \<and> setattr_log w' = setattr_log bound_pair @ [(1, ''a'', Some 7), (2, ''b'', Some 7)])
      \<and> (\<exists>w'. setattr (Suc (Suc 0)) 2 ''b'' (Some 7) bound_pair = Some (Inr w')
          \<and> setattr_log w' = setattr_log bound_pair @ [(2, ''b'', Some 7), (1, ''a'', Some 7)])"
    by (auto simp del: setattr.simps)
  with h1 h2 h3 h4 h5 h6 h7 show ?thesis by (simp del: setattr.simps)
qed

text \<open>
  C1. The code at a connection constructed over two registered objects. A set of the
  target property is forwarded to the source. When the source is unregistered,
  \<open>release_binding\<close> closes the binding and the target listener; when it registers
  again, \<open>configure_binding\<close> creates the binding and nothing creates the listener:
  both endpoints are resolved and the binding is there, but a set of the target
  property is no longer forwarded. When it is the target that is unregistered and
  registers again, \<open>configure_target\<close> creates both, and the set is forwarded as before.
\<close>

theorem source_reregistration_loses_target_listener:
  "PropertyConnection_init 2 ''c'' (Some 1) (Some ''a'') (Some 2) (Some ''b'') None plain_objects
     = Some (Inr constructed_pair)
   \<and> binding (conn constructed_pair) = Some (1, ''a'')
   \<and> target_property_changed_listener (conn constructed_pair) = Some 2
   \<and> sets_made (setattr 2 2 ''b'' (Some 7) constructed_pair)
       = Some (setattr_log constructed_pair @ [(2, ''b'', Some 7), (1, ''a'', Some 7)])
   \<and> run 2 [SourceUnregistered, SourceRegistered 1] constructed_pair = Some (Inr source_reregistered)
   \<and> source_item (conn source_reregistered) = Some 1
   \<and> target_item (conn source_reregistered) = Some 2
   \<and> binding (conn source_reregistered) = Some (1, ''a'')
   \<and> target_property_changed_listener (conn source_reregistered) = None
   \<and> sets_made (setattr 2 2 ''b'' (Some 7) source_reregistered)
       = Some (setattr_log source_reregistered @ [(2, ''b'', Some 7)])
   \<and> run 2 [TargetUnregistered, TargetRegistered 2] constructed_pair = Some (Inr target_reregistered)
   \<and> binding (conn target_reregistered) = Some (1, ''a'')
   \<and> target_property_changed_listener (conn target_reregistered) = Some 2
   \<and> sets_made (setattr 2 2 ''b'' (Some 7) target_reregistered)
       = Some (setattr_log target_reregistered @ [(2, ''b'', Some 7), (1, ''a'', Some 7)])"
proof -
  note ev = PropertyConnection_init_def configure_target_def configure_binding_def
    set_target_from_source_def set_target_from_source_on_def set_source_from_target_on_def
    target_listener_fire_def binding_listener_fire_def store_attr_def with_suppress_def
    plain_objects_def no_connection_def if_truthy_def numeral_2_eq_2
    source_unregistered_def source_registered_def target_unregistered_def target_registered_def
    release_binding_def Let_def returns_def raises_def and_then_def sets_made_def
  have c: "constructed_pair =
      plain_objects\<lparr>setattr_log := [(2, ''b'', None)],
        conn := no_connection\<lparr>uuid := ''c'',
          source_specifier := Some ''u'', target_specifier := Some ''uu'',
          source_property := Some ''a'', target_property := Some ''b'',
          source_item := Some 1, target_item := Some 2,
          binding := Some (1, ''a''), target_property_changed_listener := Some 2\<rparr>\<rparr>"
    by (simp add: constructed_pair_def ev fun_eq_iff)
  have i: "PropertyConnection_init 2 ''c'' (Some 1) (Some ''a'') (Some 2) (Some ''b'') None plain_objects
     = Some (Inr constructed_pair)"
    unfolding c by (simp add: ev fun_eq_iff)
  have s: "source_reregistered =
      constructed_pair\<lparr>setattr_log := [(2, ''b'', None), (2, ''b'', None)],
        conn := (conn constructed_pair)\<lparr>target_property_changed_listener := None\<rparr>\<rparr>"
    unfolding source_reregistered_def c by (simp add: ev fun_eq_iff)
  have rs: "run 2 [SourceUnregistered, SourceRegistered 1] constructed_pair = Some (Inr source_reregistered)"
    unfolding s unfolding c by (simp add: ev fun_eq_iff)
  have t: "target_reregistered = constructed_pair\<lparr>setattr_log := [(2, ''b'', None), (2, ''b'', None)]\<rparr>"
    unfolding target_reregistered_def c by (simp add: ev fun_eq_iff)
  have rt: "run 2 [TargetUnregistered, TargetRegistered 2] constructed_pair = Some (Inr target_reregistered)"
    unfolding t unfolding c by (simp add: ev fun_eq_iff)
  have p1: "binding (conn constructed_pair) = Some (1, ''a'')"
    "target_property_changed_listener (conn constructed_pair) = Some 2"
    "sets_made (setattr 2 2 ''b'' (Some 7) constructed_pair)
       = Some (setattr_log constructed_pair @ [(2, ''b'', Some 7), (1, ''a'', Some 7)])"
    unfolding c by (simp_all add: ev)
  have p2: "source_item (conn source_reregistered) = Some 1"
    "target_item (conn source_reregistered) = Some 2"
    "binding (conn source_reregistered) = Some (1, ''a'')"
    "target_property_changed_listener (conn source_reregistered) = None"
    "sets_made (setattr 2 2 ''b'' (Some 7) source_reregistered)
       = Some (setattr_log source_reregistered @ [(2, ''b'', Some 7)])"
    unfolding s unfolding c by (simp_all add: ev)
  have p3: "binding (conn target_reregistered) = Some (1, ''a'')"
    "target_property_changed_listener (conn target_reregistered) = Some 2"
    "sets_made (setattr 2 2 ''b'' (Some 7) target_reregistered)
       = Some (setattr_log target_reregistered @ [(2, ''b'', Some 7), (1, ''a'', Some 7)])"
    unfolding t unfolding c by (simp_all add: ev)
  from i rs rt p1 p2 p3 show ?thesis by (intro conjI)
qed

section \<open>Properties of IntervalListConnection\<close>

lemma same_display_refl: "same_display w w"
  by (simp add: same_display_def)

lemma same_display_trans: "same_display a b \<Longrightarrow> same_display b c \<Longrightarrow> same_display a c"
  by (simp add: same_display_def)

lemma fold_close_listener_same: "same_display w (fold close_listener xs w)"
proof (induction xs arbitrary: w)
  case Nil
  show ?case by (simp add: same_display_refl)
next
  case (Cons x xs)
  have "same_display w (close_listener x w)"
    by (simp add: same_display_def close_listener_def)
  with Cons.IH[of "close_listener x w"] show ?case
    by (simp add: same_display_trans)
qed

lemma detach_same: "same_display w (detach w)"
proof -
  let ?w' = "fold close_listener (interval_mutated_listeners (ilc w)) w"
  have "same_display ?w' (detach w)"
    by (simp add: detach_def Let_def same_display_def)
  with fold_close_listener_same[of w] show ?thesis
    by (rule same_display_trans)
qed

lemma track_regions_same:
  "same_display w (snd (track_regions rs ds w))
   \<and> fst (track_regions rs ds w) = ds @ map (\<lambda>g. (interval w g, ''#F00'')) (filter (is_interval_graphic w) rs)"
proof (induction rs arbitrary: ds w)
  case Nil
  show ?case by (simp add: same_display_refl)
next
  case (Cons r rs)
  show ?case
  proof (cases "is_interval_graphic w r")
    case False
    with Cons.IH[of w ds] show ?thesis by simp
  next
    case True
    let ?l = "Listener (next_handle w) r PropertyChangedEvent"
    let ?w' = "w\<lparr>open_listeners := open_listeners w @ [?l], next_handle := Suc (next_handle w),
                 ilc := (ilc w)\<lparr>interval_mutated_listeners := interval_mutated_listeners (ilc w) @ [?l]\<rparr>\<rparr>"
    have step: "track_regions (r # rs) ds w = track_regions rs (ds @ [(interval w r, ''#F00'')]) ?w'"
      using True by (simp add: listen_def Let_def)
    have sd: "same_display w ?w'" by (simp add: same_display_def)
    have f: "interval ?w' = interval w" "is_interval_graphic ?w' = is_interval_graphic w" by simp_all
    from Cons.IH[of ?w' "ds @ [(interval w r, ''#F00'')]"]
    have ih: "same_display ?w' (snd (track_regions rs (ds @ [(interval w r, ''#F00'')]) ?w'))"
      "fst (track_regions rs (ds @ [(interval w r, ''#F00'')]) ?w') =
         (ds @ [(interval w r, ''#F00'')]) @ map (\<lambda>g. (interval w g, ''#F00'')) (filter (is_interval_graphic w) rs)"
      unfolding f by simp_all
    have "same_display w (snd (track_regions (r # rs) ds w))"
      unfolding step using sd ih(1) by (rule same_display_trans)
    moreover have "fst (track_regions (r # rs) ds w) =
        ds @ map (\<lambda>g. (interval w g, ''#F00'')) (filter (is_interval_graphic w) (r # rs))"
      unfolding step ih(2) using True by simp
    ultimately show ?thesis by simp
  qed
qed

lemma reattach_cases:
  "\<exists>w2. same_display w w2 \<and>
     reattach w =
       (case ilc_target_item (ilc w) of
          None \<Rightarrow> w2
        | Some tgt \<Rightarrow>
            if interval_descriptors w tgt \<noteq> tracked_descriptors w
            then assign_interval_descriptors tgt (tracked_descriptors w) w2
            else w2)"
proof -
  let ?w1 = "detach w"
  have s1: "same_display w ?w1" by (rule detach_same)
  then have e1: "ilc_source_item (ilc ?w1) = ilc_source_item (ilc w)"
    "ilc_target_item (ilc ?w1) = ilc_target_item (ilc w)"
    "interval_descriptors ?w1 = interval_descriptors w" "graphics ?w1 = graphics w"
    "interval ?w1 = interval w" "is_interval_graphic ?w1 = is_interval_graphic w"
    by (simp_all add: same_display_def)
  show ?thesis
  proof (cases "ilc_source_item (ilc w)")
    case None
    then have "reattach w =
       (case ilc_target_item (ilc w) of
          None \<Rightarrow> ?w1
        | Some tgt \<Rightarrow>
            if interval_descriptors w tgt \<noteq> tracked_descriptors w
            then assign_interval_descriptors tgt (tracked_descriptors w) ?w1
            else ?w1)"
      by (simp add: reattach_def Let_def tracked_descriptors_def e1 split: option.splits)
    with s1 show ?thesis by (intro exI conjI)
  next
    case (Some src)
    let ?t = "track_regions (graphics w src) [] ?w1"
    from track_regions_same[of ?w1 "graphics w src" "[]"]
    have t: "same_display ?w1 (snd ?t)"
      "fst ?t = map (\<lambda>g. (interval w g, ''#F00'')) (filter (is_interval_graphic w) (graphics w src))"
      unfolding e1 by simp_all
    have s2: "same_display w (snd ?t)" using s1 t(1) by (rule same_display_trans)
    then have e2: "ilc_target_item (ilc (snd ?t)) = ilc_target_item (ilc w)"
      "interval_descriptors (snd ?t) = interval_descriptors w"
      by (simp_all add: same_display_def)
    have td: "tracked_descriptors w = fst ?t"
      using Some t(2) by (simp add: tracked_descriptors_def)
    have "reattach w =
       (case ilc_target_item (ilc w) of
          None \<Rightarrow> snd ?t
        | Some tgt \<Rightarrow>
            if interval_descriptors w tgt \<noteq> tracked_descriptors w
            then assign_interval_descriptors tgt (tracked_descriptors w) (snd ?t)
            else snd ?t)"
      by (simp add: reattach_def Let_def e1 td Some e2 case_prod_unfold split: option.splits)
    with s2 show ?thesis by (intro exI conjI)
  qed
qed

lemma reattach_equal:
  assumes "ilc_target_item (ilc w) = Some t" "interval_descriptors w t = tracked_descriptors w"
  shows "interval_descriptors (reattach w) = interval_descriptors w"
    "descriptor_assignments (reattach w) = descriptor_assignments w"
proof -
  from reattach_cases[of w] assms obtain w2 where "same_display w w2" "reattach w = w2"
    by auto
  then show "interval_descriptors (reattach w) = interval_descriptors w"
    "descriptor_assignments (reattach w) = descriptor_assignments w"
    by (simp_all add: same_display_def)
qed

lemma reattach_differs:
  assumes "ilc_target_item (ilc w) = Some t" "interval_descriptors w t \<noteq> tracked_descriptors w"
  shows "interval_descriptors (reattach w) = (interval_descriptors w)(t := tracked_descriptors w)"
    "descriptor_assignments (reattach w) = descriptor_assignments w @ [(t, tracked_descriptors w)]"
proof -
  from reattach_cases[of w] assms obtain w2 where "same_display w w2"
    "reattach w = assign_interval_descriptors t (tracked_descriptors w) w2"
    by auto
  then show "interval_descriptors (reattach w) = (interval_descriptors w)(t := tracked_descriptors w)"
    "descriptor_assignments (reattach w) = descriptor_assignments w @ [(t, tracked_descriptors w)]"
    by (simp_all add: same_display_def assign_interval_descriptors_def)
qed


lemma close_keeps_listeners:
  "interval_mutated_listeners (ilc (IntervalListConnection_close w)) = interval_mutated_listeners (ilc w)
   \<and> open_listeners (IntervalListConnection_close w) = open_listeners w"
  by (simp add: IntervalListConnection_close_def)

lemma connected_display_eval:
  "interval_mutated_listeners (ilc connected_display) = [Listener 3 10 PropertyChangedEvent]"
  "open_listeners connected_display =
     [Listener 0 1 ItemInsertedEvent, Listener 1 1 ItemRemovedEvent, Listener 3 10 PropertyChangedEvent]"
  "descriptor_assignments connected_display = [(2, [((0, 5), ''#F00'')])]"
  "ilc_target_item (ilc connected_display) = Some 2"
  "ilc_source_item (ilc connected_display) = Some 1"
  "item_inserted_event_listener (ilc connected_display) = Some (Listener 0 1 ItemInsertedEvent)"
  "item_removed_event_listener (ilc connected_display) = Some (Listener 1 1 ItemRemovedEvent)"
  by (simp_all add: connected_display_def IntervalListConnection_init_def plain_display_def
      no_interval_list_connection_def ilc_source_registered_def ilc_target_registered_def
      reattach_def detach_def listen_def close_listener_def assign_interval_descriptors_def Let_def)

text \<open>
  C5. The code at an \<open>IntervalListConnection\<close> over a display item with one interval
  graphic and a line profile: after \<open>close()\<close> the connection still holds its interval
  listener, and that listener is still open. \<open>IntervalListConnection\<close> has no \<open>close\<close>
  of its own, unlike \<open>PropertyConnection\<close>, whose \<open>close\<close> releases the binding and the
  target listener.
\<close>

theorem interval_listeners_survive_close:
  "interval_mutated_listeners (ilc (IntervalListConnection_close connected_display))
     = [Listener 3 10 PropertyChangedEvent]
   \<and> Listener 3 10 PropertyChangedEvent \<in> set (open_listeners (IntervalListConnection_close connected_display))"
  using close_keeps_listeners[of connected_display] connected_display_eval(1,2) by simp

text \<open>
  C9, as stated, at the same \<open>IntervalListConnection\<close> after \<open>close()\<close>: the connection
  is closed, and setting the interval of the graphic still runs \<open>reattach\<close> through
  the listener that stayed open, which assigns the new list to the target.
  \<open>reattach\<close> has no assertion on the closed flag, and nothing is raised.
\<close>

theorem closed_interval_list_connection_propagates_counterexample:
  "closed (ilc (IntervalListConnection_close connected_display))
   \<and> interval_descriptors (IntervalListConnection_close connected_display) 2 = [((0, 5), ''#F00'')]
   \<and> interval_descriptors (set_interval 10 (1, 2) (IntervalListConnection_close connected_display)) 2
       = [((1, 2), ''#F00'')]
   \<and> descriptor_assignments (set_interval 10 (1, 2) (IntervalListConnection_close connected_display))
       = descriptor_assignments (IntervalListConnection_close connected_display)
           @ [(2, [((1, 2), ''#F00'')])]
   \<and> closed (ilc (set_interval 10 (1, 2) (IntervalListConnection_close connected_display)))"
  by (simp add: connected_display_def IntervalListConnection_init_def plain_display_def
      no_interval_list_connection_def ilc_source_registered_def ilc_target_registered_def
      reattach_def detach_def listen_def close_listener_def assign_interval_descriptors_def Let_def
      IntervalListConnection_close_def set_interval_def hears_def)


text \<open>
  C6. With the target resolved, a recomputation (\<open>reattach\<close>) compares the target's
  \<open>interval_descriptors\<close> with the list projected from the source display. When they
  are equal the property and the record of assignments are unchanged; when they differ
  the list is assigned, once. Inserting a graphic, removing a graphic and changing the
  interval of a graphic run exactly that recomputation on the changed display when the
  connection's listener on the object is open, and nothing otherwise.
\<close>

theorem recomputation_assigns_only_on_difference:
  assumes "ilc_target_item (ilc w) = Some t"
  shows "(if interval_descriptors w t = tracked_descriptors w
          then interval_descriptors (reattach w) = interval_descriptors w
               \<and> descriptor_assignments (reattach w) = descriptor_assignments w
          else interval_descriptors (reattach w) = (interval_descriptors w)(t := tracked_descriptors w)
               \<and> descriptor_assignments (reattach w) = descriptor_assignments w @ [(t, tracked_descriptors w)])
       \<and> insert_graphic d i g w =
           (let w' = w\<lparr>graphics := (graphics w)(d := take i (graphics w d) @ g # drop i (graphics w d))\<rparr>
            in if hears (item_inserted_event_listener (ilc w)) d w then reattach w' else w')
       \<and> remove_graphic d g w =
           (let w' = w\<lparr>graphics := (graphics w)(d := remove1 g (graphics w d))\<rparr>
            in if hears (item_removed_event_listener (ilc w)) d w then reattach w' else w')
       \<and> set_interval g v w =
           (let w' = w\<lparr>interval := (interval w)(g := v)\<rparr>
            in if list_ex (\<lambda>l. hears (Some l) g w) (interval_mutated_listeners (ilc w))
               then reattach w' else w')"
proof -
  have a: "if interval_descriptors w t = tracked_descriptors w
          then interval_descriptors (reattach w) = interval_descriptors w
               \<and> descriptor_assignments (reattach w) = descriptor_assignments w
          else interval_descriptors (reattach w) = (interval_descriptors w)(t := tracked_descriptors w)
               \<and> descriptor_assignments (reattach w) = descriptor_assignments w @ [(t, tracked_descriptors w)]"
    using reattach_equal[OF assms] reattach_differs[OF assms] by simp
  have b: "insert_graphic d i g w =
           (let w' = w\<lparr>graphics := (graphics w)(d := take i (graphics w d) @ g # drop i (graphics w d))\<rparr>
            in if hears (item_inserted_event_listener (ilc w)) d w then reattach w' else w')"
    using assms by (simp add: insert_graphic_def item_inserted_def hears_def Let_def cong: option.case_cong)
  have c: "remove_graphic d g w =
           (let w' = w\<lparr>graphics := (graphics w)(d := remove1 g (graphics w d))\<rparr>
            in if hears (item_removed_event_listener (ilc w)) d w then reattach w' else w')"
    using assms by (simp add: remove_graphic_def item_removed_def hears_def Let_def cong: option.case_cong)
  have e: "set_interval g v w =
           (let w' = w\<lparr>interval := (interval w)(g := v)\<rparr>
            in if list_ex (\<lambda>l. hears (Some l) g w) (interval_mutated_listeners (ilc w))
               then reattach w' else w')"
    by (simp add: set_interval_def hears_def Let_def cong: option.case_cong)
  from a b c e show ?thesis by (intro conjI)
qed

theorem recomputation_assigns_only_on_difference_witness:
  "ilc_target_item (ilc connected_display) = Some 2
   \<and> interval_descriptors connected_display 2 = tracked_descriptors connected_display
   \<and> descriptor_assignments (reattach connected_display) = descriptor_assignments connected_display
   \<and> interval_descriptors (reattach connected_display) = interval_descriptors connected_display
   \<and> ilc_target_item (ilc (connected_display\<lparr>interval := (interval connected_display)(10 := (1, 2))\<rparr>)) = Some 2
   \<and> descriptor_assignments (set_interval 10 (1, 2) connected_display)
       = descriptor_assignments connected_display @ [(2, [((1, 2), ''#F00'')])]"
proof -
  note ev = connected_display_def IntervalListConnection_init_def plain_display_def
      no_interval_list_connection_def ilc_source_registered_def ilc_target_registered_def
      reattach_def detach_def listen_def close_listener_def assign_interval_descriptors_def Let_def
      tracked_descriptors_def
  let ?w' = "connected_display\<lparr>interval := (interval connected_display)(10 := (1, 2))\<rparr>"
  have t: "ilc_target_item (ilc connected_display) = Some 2" by (rule connected_display_eval(4))
  have q: "interval_descriptors connected_display 2 = tracked_descriptors connected_display"
    by (simp add: ev)
  have t': "ilc_target_item (ilc ?w') = Some 2" using t by simp
  have q': "interval_descriptors ?w' 2 \<noteq> tracked_descriptors ?w'"
    by (simp add: ev)
  have td: "tracked_descriptors ?w' = [((1, 2), ''#F00'')]" by (simp add: ev)
  have h: "list_ex (\<lambda>l. hears (Some l) 10 connected_display) (interval_mutated_listeners (ilc connected_display))"
    by (simp add: connected_display_eval hears_def)
  have da: "descriptor_assignments ?w' = descriptor_assignments connected_display" by simp
  from recomputation_assigns_only_on_difference[OF t, of 1 0 10 "(1, 2)"] q h
  have 1: "descriptor_assignments (reattach connected_display) = descriptor_assignments connected_display"
    "interval_descriptors (reattach connected_display) = interval_descriptors connected_display"
    "set_interval 10 (1, 2) connected_display = reattach ?w'"
    by (simp_all add: Let_def)
  from recomputation_assigns_only_on_difference[OF t', of 1 0 10 "(1, 2)"] q'
  have 2: "descriptor_assignments (reattach ?w') = descriptor_assignments ?w' @ [(2, tracked_descriptors ?w')]"
    by simp
  show ?thesis using t q t' 1 2 td da by simp
qed


text \<open>
  C10. \<open>connection_factory\<close> returns a new, unbound \<open>PropertyConnection\<close> for the type
  \<open>property-connection\<close>, a new, unbound \<open>IntervalListConnection\<close> for
  \<open>interval-list-connection\<close>, and \<open>None\<close>, without raising, for every other string.
\<close>

theorem connection_factory_by_type:
  "(if lookup_id ''type'' = ''property-connection''
    then \<exists>w. connection_factory n u pw dw lookup_id = Some (Inr (Some (BuiltProperty w)))
           \<and> uuid (conn w) = u \<and> \<not> closed (conn w)
           \<and> source_item (conn w) = None \<and> target_item (conn w) = None
           \<and> binding (conn w) = None \<and> target_property_changed_listener (conn w) = None
    else if lookup_id ''type'' = ''interval-list-connection''
    then \<exists>w. connection_factory n u pw dw lookup_id = Some (Inr (Some (BuiltIntervalList w)))
           \<and> uuid (ilc w) = u \<and> \<not> closed (ilc w)
           \<and> ilc_source_item (ilc w) = None \<and> ilc_target_item (ilc w) = None
           \<and> interval_mutated_listeners (ilc w) = []
    else connection_factory n u pw dw lookup_id = Some (Inr None))"
  by (simp add: connection_factory_def PropertyConnection_init_def IntervalListConnection_init_def
      Let_def returns_def)

section \<open>Properties of entities\<close>










lemma list_insert_simps:
  "list_insert 0 x xs = x # xs"
  "list_insert (Suc i) x [] = [x]"
  "list_insert (Suc i) x (y # ys) = y # list_insert i x ys"
  by (simp_all add: list_insert_def)

lemma set_list_insert [simp]: "set (list_insert i x xs) = insert x (set xs)"
proof (induction xs arbitrary: i)
  case Nil
  show ?case by (cases i) (simp_all add: list_insert_simps)
next
  case (Cons y ys)
  show ?case
  proof (cases i)
    case 0
    then show ?thesis by (simp add: list_insert_simps)
  next
    case (Suc j)
    then show ?thesis using Cons.IH[of j] by (auto simp: list_insert_simps)
  qed
qed

lemma distinct_list_insert [simp]: "distinct (list_insert i x xs) \<longleftrightarrow> x \<notin> set xs \<and> distinct xs"
proof (induction xs arbitrary: i)
  case Nil
  show ?case by (cases i) (simp_all add: list_insert_simps)
next
  case (Cons y ys)
  show ?case
  proof (cases i)
    case 0
    then show ?thesis by (simp add: list_insert_simps)
  next
    case (Suc j)
    then show ?thesis using Cons.IH[of j] by (auto simp: list_insert_simps)
  qed
qed




lemma field_at_set_container [simp]: "field_at (set_container c v h) q k = field_at h q k"
  by (auto simp: field_at_def set_container_def split: option.splits)

lemma field_at_fire [simp]: "field_at (fire p ev h) q k = field_at h q k"
  by (simp add: field_at_def fire_def)

lemma container_of_store_field [simp]: "container_of (store_field p key f h) c = container_of h c"
  by (auto simp: container_of_def store_field_def split: option.splits)


lemma container_of_fire [simp]: "container_of (fire p ev h) c = container_of h c"
  by (simp add: container_of_def fire_def)

lemma present_updates [simp]:
  "present (store_field p key f h) ob = present h ob"
  "present (set_container c v h) ob = present h ob"
  "present (fire p ev h) ob = present h ob"
  by (auto simp: present_def store_field_def set_container_def fire_def split: option.splits)

lemma next_obj_updates [simp]:
  "next_obj (store_field p key f h) = next_obj h"
  "next_obj (set_container c v h) = next_obj h"
  "next_obj (fire p ev h) = next_obj h"
  by (auto simp: store_field_def set_container_def fire_def split: option.splits)



lemma unattached_iff: "unattached h c \<longleftrightarrow> present h c \<and> container_of h c = None"
  by (auto simp: unattached_def present_def container_of_def split: option.splits)




lemma holds_set_container [simp]: "holds (set_container c v h) q k x = holds h q k x"
  by (simp add: holds_def)

lemma holds_fire [simp]: "holds (fire p ev h) q k x = holds h q k x"
  by (simp add: holds_def)








lemma set_container_opt_frame [simp]:
  "holds (set_container_opt x v h) q k c = holds h q k c"
  "field_at (set_container_opt x v h) q k = field_at h q k"
  "present (set_container_opt x v h) ob = present h ob"
  "next_obj (set_container_opt x v h) = next_obj h"
  by (cases x; simp add: set_container_opt_def)+














lemma owned_object_rejected:
  assumes "field_at h p key = Some (ArrayField Component xs)" "container_of h c \<noteq> None"
  shows "insert_item p key i c h = Inl OwnershipError"
  using assms by (simp add: insert_item_def unattached_iff)

lemma owned_object_not_set:
  assumes "field_at h p key = Some (ItemField Component old)" "container_of h c \<noteq> None"
  shows "set_item_field p key (Some c) h = Inl OwnershipError"
  using assms by (simp add: set_item_field_def unattached_iff)




section \<open>Properties of identity\<close>









lemma uuid_of_updates [simp]:
  "uuid_of (store_field p key f h) ob = uuid_of h ob"
  "uuid_of (set_container c v h) ob = uuid_of h ob"
  "uuid_of (set_container_opt x v h) ob = uuid_of h ob"
  "uuid_of (fire p ev h) ob = uuid_of h ob"
  by (auto simp: uuid_of_def store_field_def set_container_def set_container_opt_def fire_def
      split: option.splits)






section \<open>Properties of serialization\<close>

lemma read_write_literal: "read_literal (write_literal l) = Some l"
  by (cases l) simp_all

lemma read_write_references: "read_references (map write_reference rs) = Some (map unresolve rs)"
proof (induction rs)
  case Nil
  show ?case by simp
next
  case (Cons r rs)
  then show ?case by (cases r) (simp add: write_reference_def)
qed

lemma read_items_written:
  assumes "\<And>c. c \<in> set cs \<Longrightarrow> read_from_dict S (write_to_dict c) = Some (unresolved c)"
  shows "read_items S (map write_to_dict cs) = Some (map unresolved cs)"
  using assms by (induction cs) simp_all

lemma read_fields_written:
  assumes "map fst fs = map fst specs"
    and "list_all2 fits (map snd specs) (map snd fs)"
    and "\<And>k v. (k, v) \<in> set fs \<Longrightarrow> map_of kvs k = Some (write_value v)"
    and "\<And>k v spec. (k, v) \<in> set fs \<Longrightarrow> fits spec v \<Longrightarrow>
           read_value S spec (Some (write_value v)) = Some (unresolved_value v)"
  shows "read_fields S specs kvs = Some (map (map_prod id unresolved_value) fs)"
  using assms
proof (induction fs arbitrary: specs)
  case Nil
  then show ?case by simp
next
  case (Cons f fs)
  obtain k v where f: "f = (k, v)" by (cases f)
  from Cons.prems(1) f obtain spec specs' where sp: "specs = (k, spec) # specs'"
    and rest: "map fst fs = map fst specs'"
    by (cases specs) auto
  from Cons.prems(2) sp f have fit: "fits spec v" and fits': "list_all2 fits (map snd specs') (map snd fs)"
    by simp_all
  have look: "map_of kvs k = Some (write_value v)" using Cons.prems(3)[of k v] f by simp
  have rd: "read_value S spec (Some (write_value v)) = Some (unresolved_value v)"
    using Cons.prems(4)[of k v spec] f fit by simp
  have ih: "read_fields S specs' kvs = Some (map (map_prod id unresolved_value) fs)"
  proof (rule Cons.IH[OF rest fits'])
    fix k' v' assume "(k', v') \<in> set fs"
    then show "map_of kvs k' = Some (write_value v')" using Cons.prems(3)[of k' v'] by simp
  next
    fix k' v' spec' assume "(k', v') \<in> set fs" "fits spec' v'"
    then show "read_value S spec' (Some (write_value v')) = Some (unresolved_value v')"
      using Cons.prems(4)[of k' v' spec'] by simp
  qed
  show ?case unfolding sp f using ih by (simp add: look rd id_def)
qed

lemma written_lookup:
  assumes "distinct (map fst fs)" "(k, v) \<in> set fs"
    "k \<noteq> ''type''" "k \<noteq> ''uuid''" "k \<noteq> ''modified''"
  shows "map_of ((''type'', a) # (''uuid'', b) # (''modified'', c) # map (map_prod id write_value) fs) k
           = Some (write_value v)"
proof -
  have "map_of (map (map_prod id write_value) fs) k = Some (write_value v)"
    using assms(1,2)
  proof (induction fs)
    case Nil
    then show ?case by simp
  next
    case (Cons f fs)
    then show ?case by (cases f) (auto simp: rev_image_eqI)
  qed
  with assms(3-5) show ?thesis by simp
qed

lemma write_to_dict_not_null: "write_to_dict e \<noteq> DNull"
  by (cases e) simp

lemma round_trip:
  "(conforms S e \<longrightarrow> read_from_dict S (write_to_dict e) = Some (unresolved e))"
  "(\<forall>spec. fits spec v \<and> conforms_value S v \<longrightarrow>
       read_value S spec (Some (write_value v)) = Some (unresolved_value v))"
proof (induction e and v)
  case (Item t u m fs)
  show ?case
  proof
    assume c: "conforms S (Item t u m fs)"
    then obtain specs where st: "S t = Some specs" and names: "map fst fs = map fst specs"
      and dist: "distinct (map fst specs)"
      and res: "list_all (\<lambda>k. k \<notin> set (map fst specs)) reserved_keys"
      and fit: "list_all2 fits (map snd specs) (map snd fs)"
      by (auto simp: declared_def split: option.splits)
    from c have cv: "\<And>k v. (k, v) \<in> set fs \<Longrightarrow> conforms_value S v"
      by (auto simp: list_all_iff)
    let ?kvs = "(''type'', DStr t) # (''uuid'', DStr u) # (''modified'', DStr m)
                 # map (map_prod id write_value) fs"
    have look: "\<And>k v. (k, v) \<in> set fs \<Longrightarrow> map_of ?kvs k = Some (write_value v)"
    proof -
      fix k v assume kv: "(k, v) \<in> set fs"
      then have "k \<in> set (map fst specs)" unfolding names[symmetric] by force
      moreover from res have "''type'' \<notin> set (map fst specs)" "''uuid'' \<notin> set (map fst specs)"
        "''modified'' \<notin> set (map fst specs)"
        by (simp_all add: reserved_keys_def)
      ultimately have "k \<noteq> ''type''" "k \<noteq> ''uuid''" "k \<noteq> ''modified''"
        by blast+
      with written_lookup[OF _ kv] dist names show "map_of ?kvs k = Some (write_value v)" by simp
    qed
    have rd: "\<And>k v spec. (k, v) \<in> set fs \<Longrightarrow> fits spec v \<Longrightarrow>
           read_value S spec (Some (write_value v)) = Some (unresolved_value v)"
    proof -
      fix k v spec assume kv: "(k, v) \<in> set fs" and f: "fits spec v"
      from kv have "v \<in> Basic_BNFs.snds (k, v)" by simp
      from Item.IH[OF kv this] f cv[OF kv]
      show "read_value S spec (Some (write_value v)) = Some (unresolved_value v)" by simp
    qed
    have "read_fields S specs ?kvs = Some (map (map_prod id unresolved_value) fs)"
      using read_fields_written[OF names fit look rd] .
    then show "read_from_dict S (write_to_dict (Item t u m fs)) = Some (unresolved (Item t u m fs))"
      by (simp add: st)
  qed
next
  case (ScalarV l)
  show ?case
  proof (intro allI impI)
    fix spec assume "fits spec (ScalarV l) \<and> conforms_value S (ScalarV l)"
    then obtain d where "spec = Prop d" by (cases spec) (auto elim: fits.elims)
    then show "read_value S spec (Some (write_value (ScalarV l))) = Some (unresolved_value (ScalarV l))"
      by (simp add: read_write_literal)
  qed
next
  case (ReferenceV r)
  show ?case
  proof (intro allI impI)
    fix spec assume "fits spec (ReferenceV r) \<and> conforms_value S (ReferenceV r)"
    then have sp: "spec = Single Reference" by (auto elim: fits.elims)
    show "read_value S spec (Some (write_value (ReferenceV r))) = Some (unresolved_value (ReferenceV r))"
    proof (cases r)
      case None
      with sp show ?thesis by simp
    next
      case (Some x)
      with sp show ?thesis by (cases x) (simp add: write_reference_def)
    qed
  qed
next
  case (ComponentV c)
  show ?case
  proof (intro allI impI)
    fix spec assume a: "fits spec (ComponentV c) \<and> conforms_value S (ComponentV c)"
    then have sp: "spec = Single Component" by (auto elim: fits.elims)
    show "read_value S spec (Some (write_value (ComponentV c))) = Some (unresolved_value (ComponentV c))"
    proof (cases c)
      case None
      with sp show ?thesis by simp
    next
      case (Some e)
      with a have ce: "conforms S e" by simp
      from Some have "e \<in> set_option c" by simp
      from ComponentV.IH[OF this] ce
      have r: "read_from_dict S (write_to_dict e) = Some (unresolved e)" by simp
      obtain kvs where w: "write_to_dict e = DDict kvs" by (cases e) simp
      show ?thesis using Some sp r w by simp
    qed
  qed
next
  case (ReferenceArrayV rs)
  show ?case
  proof (intro allI impI)
    fix spec assume "fits spec (ReferenceArrayV rs) \<and> conforms_value S (ReferenceArrayV rs)"
    then have sp: "spec = Array Reference" by (auto elim: fits.elims)
    then show "read_value S spec (Some (write_value (ReferenceArrayV rs)))
                 = Some (unresolved_value (ReferenceArrayV rs))"
      by (simp add: read_write_references)
  qed
next
  case (ComponentArrayV cs)
  show ?case
  proof (intro allI impI)
    fix spec assume a: "fits spec (ComponentArrayV cs) \<and> conforms_value S (ComponentArrayV cs)"
    then have sp: "spec = Array Component" by (auto elim: fits.elims)
    have "\<And>c. c \<in> set cs \<Longrightarrow> read_from_dict S (write_to_dict c) = Some (unresolved c)"
    proof -
      fix c assume m: "c \<in> set cs"
      with a have "conforms S c" by (auto simp: list_all_iff)
      with ComponentArrayV.IH[OF m] show "read_from_dict S (write_to_dict c) = Some (unresolved c)"
        by simp
    qed
    from read_items_written[OF this] sp
    show "read_value S spec (Some (write_value (ComponentArrayV cs)))
            = Some (unresolved_value (ComponentArrayV cs))"
      by simp
  qed
qed


lemma unresolved_scalars:
  "(k, ScalarV l) \<in> set (item_fields e) \<Longrightarrow> (k, ScalarV l) \<in> set (item_fields (unresolved e))"
proof (cases e)
  case (Item t u m fs)
  assume "(k, ScalarV l) \<in> set (item_fields e)"
  with Item have "(k, ScalarV l) \<in> set fs" by simp
  then have "map_prod id unresolved_value (k, ScalarV l) \<in> set (map (map_prod id unresolved_value) fs)"
    by (simp only: set_map) (rule imageI)
  with Item show ?thesis by simp
qed

text \<open>
  C3. For an entity that conforms to the schema, writing it with \<open>write_to_dict\<close> and
  reading the record back gives the same entity with its references unresolved: the
  same uuid, type and \<open>modified\<close>, the same fields in the same order, every scalar
  field with its value, the same tree of components, and each reference as its
  specifier only. The record written has the keys \<open>type\<close>, \<open>uuid\<close> and \<open>modified\<close>.
\<close>

theorem write_then_read_restores:
  assumes "conforms S e"
  shows "read_from_dict S (write_to_dict e) = Some (unresolved e)
       \<and> item_uuid (unresolved e) = item_uuid e
       \<and> item_type (unresolved e) = item_type e
       \<and> item_modified (unresolved e) = item_modified e
       \<and> map fst (item_fields (unresolved e)) = map fst (item_fields e)
       \<and> (\<forall>k l. (k, ScalarV l) \<in> set (item_fields e)
             \<longrightarrow> (k, ScalarV l) \<in> set (item_fields (unresolved e)))
       \<and> (\<exists>kvs. write_to_dict e = DDict kvs
             \<and> map_of kvs ''type'' = Some (DStr (item_type e))
             \<and> map_of kvs ''uuid'' = Some (DStr (item_uuid e))
             \<and> map_of kvs ''modified'' = Some (DStr (item_modified e)))"
proof -
  have a: "read_from_dict S (write_to_dict e) = Some (unresolved e)"
    using round_trip(1)[of S e] assms by simp
  have b: "item_uuid (unresolved e) = item_uuid e" "item_type (unresolved e) = item_type e"
    "item_modified (unresolved e) = item_modified e"
    "map fst (item_fields (unresolved e)) = map fst (item_fields e)"
    by (cases e; simp add: comp_def case_prod_unfold)+
  have c: "\<forall>k l. (k, ScalarV l) \<in> set (item_fields e)
             \<longrightarrow> (k, ScalarV l) \<in> set (item_fields (unresolved e))"
    using unresolved_scalars by blast
  have d: "\<exists>kvs. write_to_dict e = DDict kvs
             \<and> map_of kvs ''type'' = Some (DStr (item_type e))
             \<and> map_of kvs ''uuid'' = Some (DStr (item_uuid e))
             \<and> map_of kvs ''modified'' = Some (DStr (item_modified e))"
    by (cases e) simp
  from a b c d show ?thesis by (intro conjI)
qed

theorem write_then_read_restores_witness:
  "conforms test_schema test_item
   \<and> read_from_dict test_schema (write_to_dict test_item) =
       Some (Item ''c'' ''u0'' ''t0''
         [(''c_items'', ComponentArrayV [Item ''item'' ''u1'' ''t1'' [(''flag'', ScalarV (LBool True))]]),
          (''r_items'', ReferenceArrayV [Ref ''u3'' None]),
          (''c_item'', ComponentV None),
          (''r_item'', ReferenceV (Some (Ref ''u6'' None)))])"
proof -
  have c: "conforms test_schema test_item"
    by (simp add: test_schema_def test_item_def declared_def reserved_keys_def item_model_def
        container_model_def)
  have u: "unresolved test_item = Item ''c'' ''u0'' ''t0''
         [(''c_items'', ComponentArrayV [Item ''item'' ''u1'' ''t1'' [(''flag'', ScalarV (LBool True))]]),
          (''r_items'', ReferenceArrayV [Ref ''u3'' None]),
          (''c_item'', ComponentV None),
          (''r_item'', ReferenceV (Some (Ref ''u6'' None)))]"
    by (simp add: test_item_def)
  from write_then_read_restores[OF c] u c show ?thesis by simp
qed

end
